theory Spec2Isabelle
  imports Complex_Main "HOL-Library.Multiset" "HOL-Library.AList"
    "HOL-Library.Monad_Syntax"
begin

section \<open>Contribution streaks\<close>

text \<open>
  The statistics generator of \<^verbatim>\<open>scripts/generate_stats.py\<close>. A calendar date is an
  ISO string \<^verbatim>\<open>YYYY-MM-DD\<close> in the source, parsed with \<^verbatim>\<open>strptime\<close> and printed
  back with \<^verbatim>\<open>strftime\<close>; here a date is its day number (the proleptic ordinal of
  \<^verbatim>\<open>datetime.date\<close>), so that \<^verbatim>\<open>timedelta(days=1)\<close> is \<open>1\<close>, the order of the
  strings is the order of the numbers, and membership of a formatted date in the set of
  active date strings is membership of the day number. Counts and counters are Python
  integers, hence \<open>int\<close>.
\<close>

type_synonym isodate = int

record day_record =
  date :: isodate
  contributionCount :: int

text \<open>The dictionary returned by \<^verbatim>\<open>calculate_streaks\<close>; \<^verbatim>\<open>None\<close> is \<open>None\<close>.\<close>

record streaks =
  total :: int
  current :: int
  current_start :: "isodate option"
  current_end :: "isodate option"
  longest :: int
  longest_start :: "isodate option"
  longest_end :: "isodate option"

text \<open>
  The local variables the \<^verbatim>\<open>while\<close> loop of \<^verbatim>\<open>calculate_streaks\<close> updates. The
  source's locals \<^verbatim>\<open>longest_start\<close> and \<^verbatim>\<open>longest_end\<close> are date objects, the keys of the
  same names in the result are their formatted strings; the locals carry the suffix
  \<open>_date\<close> here.
\<close>

record walk_state =
  streak :: int
  streak_start :: "isodate option"
  longest_streak :: int
  longest_start_date :: "isodate option"
  longest_end_date :: "isodate option"

definition initial_state :: walk_state where
  "initial_state =
     \<lparr>streak = 0, streak_start = None, longest_streak = 0,
      longest_start_date = None, longest_end_date = None\<rparr>"

text \<open>One iteration of the loop body at \<open>check_date\<close>.\<close>

definition walk_step :: "isodate set \<Rightarrow> isodate \<Rightarrow> walk_state \<Rightarrow> walk_state" where
  "walk_step contrib_dates check_date s =
     (if check_date \<in> contrib_dates then
        s\<lparr>streak_start := (if streak s = 0 then Some check_date else streak_start s),
          streak := streak s + 1\<rparr>
      else if streak s > 0 then
        (if streak s > longest_streak s then
           s\<lparr>longest_streak := streak s,
             longest_start_date := streak_start s,
             longest_end_date := Some (check_date - 1)\<rparr>
         else s)\<lparr>streak := 0, streak_start := None\<rparr>
      else s)"

text \<open>\<^verbatim>\<open>while check_date <= today: ...; check_date += timedelta(days=1)\<close>\<close>

function walk :: "isodate set \<Rightarrow> isodate \<Rightarrow> isodate \<Rightarrow> walk_state \<Rightarrow> walk_state" where
  "walk contrib_dates today check_date s =
     (if check_date \<le> today
      then walk contrib_dates today (check_date + 1) (walk_step contrib_dates check_date s)
      else s)"
  by pat_completeness auto
termination
  by (relation "measure (\<lambda>(contrib_dates, today, check_date, s). nat (today + 1 - check_date))") auto

declare walk.simps [simp del]

text \<open>\<^verbatim>\<open>sorted(contribution_days, key=lambda d: d["date"])\<close>: a stable sort on the date.\<close>

definition sorted_days :: "day_record list \<Rightarrow> day_record list" where
  "sorted_days contribution_days = sort_key date contribution_days"

text \<open>\<^verbatim>\<open>{d["date"] for d in sorted_days if d["contributionCount"] > 0}\<close>\<close>

definition contrib_dates_of :: "day_record list \<Rightarrow> isodate set" where
  "contrib_dates_of days = set (map date (filter (\<lambda>d. contributionCount d > 0) days))"

text \<open>The code after the loop that handles a run still open at \<open>today\<close>.\<close>

definition close_open_run :: "isodate set \<Rightarrow> isodate \<Rightarrow> walk_state \<Rightarrow> walk_state" where
  "close_open_run contrib_dates today s =
     (if streak s > 0 \<and> streak s > longest_streak s then
        s\<lparr>longest_streak := streak s,
          longest_start_date := streak_start s,
          longest_end_date := Some (if today \<in> contrib_dates then today else today - 1)\<rparr>
      else s)"

text \<open>
  \<^verbatim>\<open>calculate_streaks\<close>, with the value of \<^verbatim>\<open>datetime.now().date()\<close> as the parameter
  \<open>today\<close>. The first date walked is \<^verbatim>\<open>all_dates[0]\<close> of the sorted active dates.
\<close>

definition calculate_streaks :: "day_record list \<Rightarrow> isodate \<Rightarrow> streaks" where
  "calculate_streaks contribution_days today =
     (let days = sorted_days contribution_days;
          total_contributions = sum_list (map contributionCount days);
          contrib_dates = contrib_dates_of days
      in if contrib_dates = {} then
           \<lparr>total = 0, current = 0, current_start = None, current_end = None,
            longest = 0, longest_start = None, longest_end = None\<rparr>
         else
           let all_dates = sorted_list_of_set contrib_dates;
               min_date = hd all_dates;
               s = walk contrib_dates today min_date initial_state;
               s' = close_open_run contrib_dates today s;
               yesterday = today - 1;
               active = (streak s > 0 \<and> (today \<in> contrib_dates \<or> yesterday \<in> contrib_dates))
           in \<lparr>total = total_contributions,
               current = (if active then streak s else 0),
               current_start = (if active then streak_start s else None),
               current_end =
                 (if active then Some (if today \<in> contrib_dates then today else yesterday)
                  else None),
               longest = longest_streak s',
               longest_start = longest_start_date s',
               longest_end = longest_end_date s'\<rparr>)"

subsection \<open>Runs of active dates\<close>

text \<open>
  A run found by the walk that ends at \<open>today\<close>: consecutive active dates from \<open>s\<close> to
  \<open>e\<close>, not after \<open>today\<close>, that cannot be extended: the day before \<open>s\<close> is inactive,
  and either the day after \<open>e\<close> is inactive or the walk stops at \<open>e\<close>. When no active
  date lies after \<open>today\<close>, these are the maximal runs of the series.
\<close>

definition is_run :: "isodate set \<Rightarrow> isodate \<Rightarrow> isodate \<Rightarrow> isodate \<Rightarrow> bool" where
  "is_run A today s e \<longleftrightarrow>
     s \<le> e \<and> e \<le> today \<and> (\<forall>d\<in>{s..e}. d \<in> A) \<and> s - 1 \<notin> A \<and> (e = today \<or> e + 1 \<notin> A)"

text \<open>
  The loop invariant before the iteration for date \<open>c\<close>. A run is closed when the
  inactive date after it has been visited; \<open>open_run\<close> says that \<open>streak\<close> counts
  the active dates just before \<open>c\<close>, \<open>best_closed\<close> that the longest run recorded is
  the earliest of the longest closed runs.
\<close>

definition closed_run :: "isodate set \<Rightarrow> isodate \<Rightarrow> isodate \<Rightarrow> isodate \<Rightarrow> bool" where
  "closed_run A c s e \<longleftrightarrow>
     s \<le> e \<and> e + 1 < c \<and> (\<forall>d\<in>{s..e}. d \<in> A) \<and> s - 1 \<notin> A \<and> e + 1 \<notin> A"

definition best_closed :: "isodate set \<Rightarrow> isodate \<Rightarrow> walk_state \<Rightarrow> bool" where
  "best_closed A c st \<longleftrightarrow>
     (longest_streak st = 0 \<and> longest_start_date st = None \<and> longest_end_date st = None \<and>
      (\<forall>s e. \<not> closed_run A c s e)) \<or>
     (\<exists>s e. closed_run A c s e \<and> longest_streak st = e - s + 1 \<and>
        longest_start_date st = Some s \<and> longest_end_date st = Some e \<and>
        (\<forall>s' e'. closed_run A c s' e' \<longrightarrow> e' - s' \<le> e - s \<and> (e' - s' = e - s \<longrightarrow> s \<le> s')))"

definition open_run :: "isodate set \<Rightarrow> isodate \<Rightarrow> walk_state \<Rightarrow> bool" where
  "open_run A c st \<longleftrightarrow>
     0 \<le> streak st \<and> (\<forall>d. c - streak st \<le> d \<and> d < c \<longrightarrow> d \<in> A) \<and> c - streak st - 1 \<notin> A \<and>
     streak_start st = (if streak st > 0 then Some (c - streak st) else None)"

definition walk_inv :: "isodate set \<Rightarrow> isodate \<Rightarrow> walk_state \<Rightarrow> bool" where
  "walk_inv A c st \<longleftrightarrow> open_run A c st \<and> best_closed A c st"

section \<open>Collecting the fetched batches\<close>

text \<open>
  \<^verbatim>\<open>main\<close> fetches one batch of day records per contribution year and appends each to
  \<^verbatim>\<open>all_days\<close> with \<^verbatim>\<open>all_days.extend(days)\<close>; the list is then passed to
  \<^verbatim>\<open>calculate_streaks\<close>, which sorts it. No other code touches the records.
\<close>

definition all_days :: "day_record list list \<Rightarrow> day_record list" where
  "all_days batches = foldl (\<lambda>acc days. acc @ days) [] batches"

section \<open>Language statistics\<close>

text \<open>
  An edge of a repository's \<^verbatim>\<open>languages\<close>: \<^verbatim>\<open>edge["size"]\<close>, \<^verbatim>\<open>edge["node"]["name"]\<close>
  and \<^verbatim>\<open>edge["node"].get("color")\<close>, which is \<open>None\<close> for a missing key or a null.
  A repository node carries the counters the stats card reads with a default of 0 and its
  edges, \<^verbatim>\<open>repo.get("languages", {}).get("edges", [])\<close>: the empty list when absent.
\<close>

record lang_edge =
  edge_size :: int
  node_name :: string
  node_color :: "string option"

record repo =
  stargazerCount :: int
  forkCount :: int
  edges :: "lang_edge list"

text \<open>
  A value of the dictionary \<^verbatim>\<open>lang_sizes\<close>, \<^verbatim>\<open>{"size": ..., "color": ...}\<close>. The
  dictionary keeps its keys in insertion order, which the stable sort below observes, so
  it is an association list: \<open>AList.update\<close> replaces the value of a key in place and
  appends a new key at the end.
\<close>

record lang_entry =
  entry_size :: int
  entry_color :: string

definition default_entry :: lang_entry where
  "default_entry = \<lparr>entry_size = 0, entry_color = ''#858585''\<rparr>"

text \<open>
  The body of the inner loop: \<^verbatim>\<open>lang_sizes[name]\<close> creates the default entry for a new
  name, the size is added, and a truthy colour (neither \<^verbatim>\<open>None\<close> nor the empty string)
  overwrites the stored one.
\<close>

definition add_edge :: "(string \<times> lang_entry) list \<Rightarrow> lang_edge \<Rightarrow> (string \<times> lang_entry) list" where
  "add_edge lang_sizes edge =
     (let name = node_name edge;
          entry = (case map_of lang_sizes name of None \<Rightarrow> default_entry | Some v \<Rightarrow> v);
          entry = entry\<lparr>entry_size := entry_size entry + edge_size edge\<rparr>;
          entry = (case node_color edge of
                     None \<Rightarrow> entry
                   | Some c \<Rightarrow> if c \<noteq> [] then entry\<lparr>entry_color := c\<rparr> else entry)
      in AList.update name entry lang_sizes)"

definition collect_lang_sizes :: "repo list \<Rightarrow> (string \<times> lang_entry) list" where
  "collect_lang_sizes repos = foldl (\<lambda>lang_sizes r. foldl add_edge lang_sizes (edges r)) [] repos"

text \<open>
  Percentages are Python floats: \<^verbatim>\<open>data["size"] / total_size * 100\<close> in IEEE double
  arithmetic, then \<^verbatim>\<open>round(pct, 2)\<close>. A double is modelled by the rational number it
  stands for, and each operation by its correctly rounded result: \<open>to_double x\<close> is the
  double nearest to \<open>x\<close>, with a significand of 53 bits and a tie going to the even
  significand. The range of the exponent is not modelled (no overflow, no subnormal
  numbers): the quotient of a non-negative size by a total below \<open>2 ^ 1022\<close> is either 0
  or a normal double. The true division of two Python integers is the correctly rounded
  quotient, and so is the product of two doubles.
\<close>

definition round_half_even :: "rat \<Rightarrow> int" where
  "round_half_even x =
     (let f = \<lfloor>x\<rfloor>; r = x - of_int f
      in if r < 1 / 2 then f else if 1 / 2 < r then f + 1 else if even f then f else f + 1)"

text \<open>The number of binary digits of a positive integer, 0 otherwise.\<close>

function bit_length :: "int \<Rightarrow> int" where
  "bit_length n = (if n \<le> 0 then 0 else bit_length (n div 2) + 1)"
  by pat_completeness auto
termination
  by (relation "measure nat") auto

declare bit_length.simps [simp del]

text \<open>The exponent \<open>e\<close> of a positive number: \<open>2 ^ e \<le> x < 2 ^ (e + 1)\<close>.\<close>

definition binary_exponent :: "rat \<Rightarrow> int" where
  "binary_exponent x =
     (let e0 = bit_length (fst (quotient_of x)) - bit_length (snd (quotient_of x))
      in if 2 powi e0 \<le> x then e0 else e0 - 1)"

definition to_double :: "rat \<Rightarrow> rat" where
  "to_double x =
     (if x = 0 then 0
      else let ulp = 2 powi (binary_exponent \<bar>x\<bar> - 52)
           in of_int (round_half_even (x / ulp)) * ulp)"

text \<open>
  \<^verbatim>\<open>round(x, 2)\<close> of a double: the decimal with two digits after the point nearest to the
  value of \<open>x\<close> (a tie going to the even last digit), converted back to a double.
\<close>

definition py_round2 :: "rat \<Rightarrow> rat" where
  "py_round2 x = to_double (of_int (round_half_even (x * 100)) / 100)"

record language =
  name :: string
  percentage :: rat
  color :: string

text \<open>
  The loop over the sorted items that appends one row per language: the percentage of
  the row from the size of the entry and \<^verbatim>\<open>total_size\<close>.
\<close>

fun language_rows :: "int \<Rightarrow> (string \<times> lang_entry) list \<Rightarrow> language list" where
  "language_rows total_size [] = []"
| "language_rows total_size ((n, data) # items) =
     (let pct = (if total_size > 0
                 then to_double (to_double (of_int (entry_size data) / of_int total_size) * 100)
                 else 0)
      in \<lparr>name = n, percentage = py_round2 pct, color = entry_color data\<rparr>
         # language_rows total_size items)"

definition calculate_language_stats :: "repo list \<Rightarrow> language list" where
  "calculate_language_stats repos =
     (let lang_sizes = collect_lang_sizes repos;
          total_size = sum_list (map (\<lambda>(n, v). entry_size v) lang_sizes)
      in language_rows total_size (sort_key (\<lambda>(n, v). - entry_size v) lang_sizes))"

text \<open>
  What the language aggregation is to compute, from the edges of all repositories: the
  bytes of one language and the bytes of all languages.
\<close>

definition all_edges :: "repo list \<Rightarrow> lang_edge list" where
  "all_edges repos = concat (map edges repos)"

definition lang_bytes :: "repo list \<Rightarrow> string \<Rightarrow> int" where
  "lang_bytes repos n = sum_list (map edge_size (filter (\<lambda>e. node_name e = n) (all_edges repos)))"

definition total_bytes :: "repo list \<Rightarrow> int" where
  "total_bytes repos = sum_list (map edge_size (all_edges repos))"

text \<open>The size stored for a name in \<^verbatim>\<open>lang_sizes\<close>, 0 for a name that is not a key.\<close>

definition stored_size :: "(string \<times> lang_entry) list \<Rightarrow> string \<Rightarrow> int" where
  "stored_size lang_sizes n = (case map_of lang_sizes n of None \<Rightarrow> 0 | Some v \<Rightarrow> entry_size v)"

text \<open>
  The percentage the source reports for a size out of a total: the quotient and the
  product in doubles, then \<^verbatim>\<open>round(pct, 2)\<close>, and 0 without a positive total.
\<close>

definition reported_percentage :: "int \<Rightarrow> int \<Rightarrow> rat" where
  "reported_percentage s t =
     py_round2 (if 0 < t then to_double (to_double (of_int s / of_int t) * 100) else 0)"

section \<open>Rank\<close>

text \<open>
  The score and the grade that \<^verbatim>\<open>generate_stats_svg\<close> computes from its counters;
  \<^verbatim>\<open>total_commits\<close> is the sum of the commit and the restricted contribution counts.
\<close>

definition score :: "int \<Rightarrow> int \<Rightarrow> int \<Rightarrow> int \<Rightarrow> int \<Rightarrow> int" where
  "score total_commits total_prs total_issues total_reviews total_stars =
     total_commits * 1 + total_prs * 2 + total_issues * 1 + total_reviews * 1 + total_stars * 1"

definition rank :: "int \<Rightarrow> string" where
  "rank sc =
     (if sc > 10000 then ''S+''
      else if sc > 5000 then ''S''
      else if sc > 2500 then ''A+''
      else if sc > 1000 then ''A''
      else if sc > 500 then ''B+''
      else if sc > 100 then ''B''
      else ''C'')"

section \<open>Cards\<close>

subsection \<open>Formatting integers\<close>

text \<open>
  \<^verbatim>\<open>str\<close> of a Python integer, which an f-string applies to \<^verbatim>\<open>{n}\<close>, and the format
  \<^verbatim>\<open>{n:,}\<close>, which separates groups of three digits by commas.
\<close>

definition digit_char :: "nat \<Rightarrow> char" where
  "digit_char n = ''0123456789'' ! (n mod 10)"

function str_nat :: "nat \<Rightarrow> string" where
  "str_nat n = (if n < 10 then [digit_char n] else str_nat (n div 10) @ [digit_char n])"
  by pat_completeness auto
termination
  by (relation "measure id") auto

declare str_nat.simps [simp del]

definition str_int :: "int \<Rightarrow> string" where
  "str_int i = (if i < 0 then CHR ''-'' # str_nat (nat (- i)) else str_nat (nat i))"

function group3 :: "string \<Rightarrow> string" where
  "group3 ds =
     (if length ds \<le> 3 then ds
      else group3 (take (length ds - 3) ds) @ '','' @ drop (length ds - 3) ds)"
  by pat_completeness auto
termination
  by (relation "measure length") auto

declare group3.simps [simp del]

definition format_commas :: "int \<Rightarrow> string" where
  "format_commas i =
     (if i < 0 then CHR ''-'' # group3 (str_nat (nat (- i))) else group3 (str_nat (nat i)))"

subsection \<open>Palettes\<close>

text \<open>
  A palette is a dictionary from a key to a colour, and each card has its own dictionary
  \<^verbatim>\<open>themes\<close> from a theme name to a palette. Reading a key that a dictionary lacks
  raises \<^verbatim>\<open>KeyError\<close>: \<^verbatim>\<open>d[k]\<close> is \<open>map_of d k\<close>, with \<open>None\<close> for the exception, and
  a card is a \<open>string option\<close>. \<^verbatim>\<open>d.get(k, default)\<close> never raises.
\<close>

type_synonym palette = "(string \<times> string) list"

definition dict_get :: "('k \<times> 'v) list \<Rightarrow> 'k \<Rightarrow> 'v \<Rightarrow> 'v" where
  "dict_get d k dflt = (case map_of d k of None \<Rightarrow> dflt | Some v \<Rightarrow> v)"

definition stats_themes :: "(string \<times> palette) list" where
  "stats_themes =
     [(''merko'',
        [(''bg'', ''#0a0f0b''), (''border'', ''#69ff97''), (''title'', ''#69ff97''),
         (''text'', ''#c9d1d9''), (''icon'', ''#69ff97'')]),
      (''dark'',
        [(''bg'', ''#151515''), (''border'', ''#e4e2e2''), (''title'', ''#fff''),
         (''text'', ''#9f9f9f''), (''icon'', ''#79ff97'')]),
      (''default'',
        [(''bg'', ''#fffefe''), (''border'', ''#e4e2e2''), (''title'', ''#2f80ed''),
         (''text'', ''#434d58''), (''icon'', ''#4c71f2'')])]"

definition top_langs_themes :: "(string \<times> palette) list" where
  "top_langs_themes =
     [(''merko'',
        [(''bg'', ''#0a0f0b''), (''border'', ''#69ff97''), (''title'', ''#69ff97''),
         (''text'', ''#c9d1d9'')]),
      (''dark'',
        [(''bg'', ''#151515''), (''border'', ''#e4e2e2''), (''title'', ''#fff''),
         (''text'', ''#9f9f9f'')]),
      (''default'',
        [(''bg'', ''#fffefe''), (''border'', ''#e4e2e2''), (''title'', ''#2f80ed''),
         (''text'', ''#434d58'')])]"

definition streak_themes :: "(string \<times> palette) list" where
  "streak_themes =
     [(''tokyonight'',
        [(''bg'', ''#1a1b27''), (''border'', ''#70a5fd''), (''title'', ''#70a5fd''),
         (''text'', ''#38bdae''), (''dates'', ''#bf91f3''), (''ring'', ''#70a5fd''),
         (''fire'', ''#eb6e17'')]),
      (''dark'',
        [(''bg'', ''#151515''), (''border'', ''#e4e2e2''), (''title'', ''#fff''),
         (''text'', ''#9f9f9f''), (''dates'', ''#9f9f9f''), (''ring'', ''#fb8c00''),
         (''fire'', ''#fb8c00'')]),
      (''default'',
        [(''bg'', ''#fffefe''), (''border'', ''#e4e2e2''), (''title'', ''#2f80ed''),
         (''text'', ''#434d58''), (''dates'', ''#434d58''), (''ring'', ''#fb8c00''),
         (''fire'', ''#fb8c00'')])]"

subsection \<open>The stats card\<close>

text \<open>
  The dictionary \<^verbatim>\<open>stats\<close> as \<^verbatim>\<open>generate_stats_svg\<close> reads it: every counter is read
  with \<^verbatim>\<open>.get(key, 0)\<close> and the repository nodes with \<^verbatim>\<open>.get("nodes", [])\<close>, so a
  missing key is the 0 or the empty list of the field.
\<close>

record user_stats =
  nodes :: "repo list"
  totalCommitContributions :: int
  restrictedContributionsCount :: int
  totalPullRequestContributions :: int
  totalIssueContributions :: int
  totalPullRequestReviewContributions :: int
  totalContributions :: int
  repositoriesContributedTo :: int

text \<open>The f-string of the stats card, as a function of the values it substitutes.\<close>

definition stats_svg_text ::
  "string \<Rightarrow> string \<Rightarrow> string \<Rightarrow> string \<Rightarrow> string \<Rightarrow> string \<Rightarrow> int \<Rightarrow> int \<Rightarrow> int \<Rightarrow> int \<Rightarrow> int \<Rightarrow> string
   \<Rightarrow> string" where
  \<open>stats_svg_text t_title t_text t_icon t_bg t_border username total_stars total_commits
     total_prs total_issues repos_contributed grade =
     concat
       [
        ''<svg width="495" height="195" viewBox="0 0 495 195" fill="none" xmlns="http://www.w3.org/2000/svg">\<newline>'',
        ''  <style>\<newline>'',
        ''    .header { font: 600 18px 'Segoe UI', Ubuntu, Sans-Serif; fill: '', t_title, ''; animation: fadeInAnimation 0.8s ease-in-out forwards; }\<newline>'',
        ''    .stat { font: 600 14px 'Segoe UI', Ubuntu, Sans-Serif; fill: '', t_text, ''; }\<newline>'',
        ''    .stagger { opacity: 0; animation: fadeInAnimation 0.3s ease-in-out forwards; }\<newline>'',
        ''    .rank-text { font: 800 24px 'Segoe UI', Ubuntu, Sans-Serif; fill: '', t_title, ''; }\<newline>'',
        ''    .icon { fill: '', t_icon, ''; }\<newline>'',
        ''    @keyframes fadeInAnimation { from { opacity: 0; } to { opacity: 1; } }\<newline>'',
        ''  </style>\<newline>'',
        ''  <rect x="0.5" y="0.5" rx="4.5" width="494" height="194" fill="'', t_bg, ''" stroke="'', t_border, ''"/>\<newline>'',
        ''  <g transform="translate(25, 35)">\<newline>'',
        ''    <text class="header" x="0" y="0">'', username, [CHR 0x27], ''s GitHub Stats</text>\<newline>'',
        ''  </g>\<newline>'',
        ''  <g transform="translate(25, 55)">\<newline>'',
        ''    <g class="stagger" style="animation-delay: 150ms" transform="translate(0, 21)">\<newline>'',
        ''      <text class="stat">Total Stars Earned: '', format_commas total_stars, ''</text>\<newline>'',
        ''    </g>\<newline>'',
        ''    <g class="stagger" style="animation-delay: 300ms" transform="translate(0, 42)">\<newline>'',
        ''      <text class="stat">Total Commits (this year): '', format_commas total_commits, ''</text>\<newline>'',
        ''    </g>\<newline>'',
        ''    <g class="stagger" style="animation-delay: 450ms" transform="translate(0, 63)">\<newline>'',
        ''      <text class="stat">Total PRs: '', format_commas total_prs, ''</text>\<newline>'',
        ''    </g>\<newline>'',
        ''    <g class="stagger" style="animation-delay: 600ms" transform="translate(0, 84)">\<newline>'',
        ''      <text class="stat">Total Issues: '', format_commas total_issues, ''</text>\<newline>'',
        ''    </g>\<newline>'',
        ''    <g class="stagger" style="animation-delay: 750ms" transform="translate(0, 105)">\<newline>'',
        ''      <text class="stat">Contributed to (last year): '', str_int repos_contributed, ''</text>\<newline>'',
        ''    </g>\<newline>'',
        ''  </g>\<newline>'',
        ''  <g transform="translate(400, 100)">\<newline>'',
        ''    <circle cx="0" cy="0" r="40" fill="none" stroke="'', t_icon, ''" stroke-width="5" opacity="0.2"/>\<newline>'',
        ''    <circle cx="0" cy="0" r="40" fill="none" stroke="'', t_icon, ''" stroke-width="5" stroke-dasharray="251.2" stroke-dashoffset="50" stroke-linecap="round"/>\<newline>'',
        ''    <text class="rank-text" x="0" y="8" text-anchor="middle">'', grade, ''</text>\<newline>'',
        ''  </g>\<newline>'',
        ''</svg>''
       ]\<close>

definition generate_stats_svg :: "user_stats \<Rightarrow> string \<Rightarrow> string \<Rightarrow> string option" where
  \<open>generate_stats_svg stats username theme =
     do {
       merko \<leftarrow> map_of stats_themes ''merko'';
       let t = dict_get stats_themes theme merko;
       let total_stars = sum_list (map stargazerCount (nodes stats));
       let total_forks = sum_list (map forkCount (nodes stats));
       let total_commits = totalCommitContributions stats + restrictedContributionsCount stats;
       let total_prs = totalPullRequestContributions stats;
       let total_issues = totalIssueContributions stats;
       let total_reviews = totalPullRequestReviewContributions stats;
       let total_contribs = totalContributions stats;
       let repos_contributed = repositoriesContributedTo stats;
       let grade = rank (score total_commits total_prs total_issues total_reviews total_stars);
       t_title \<leftarrow> map_of t ''title'';
       t_text \<leftarrow> map_of t ''text'';
       t_icon \<leftarrow> map_of t ''icon'';
       t_bg \<leftarrow> map_of t ''bg'';
       t_border \<leftarrow> map_of t ''border'';
       Some (stats_svg_text t_title t_text t_icon t_bg t_border username total_stars
         total_commits total_prs total_issues repos_contributed grade)
     }\<close>

subsection \<open>The top languages card\<close>

text \<open>
  The donut chart is computed in floats and the f-strings print floats. The arithmetic of
  the chart is the exact rational one here; the texts Python prints for a float are
  not modelled and are parameters of the card: \<open>float_str\<close> for \<^verbatim>\<open>{x}\<close>,
  \<open>float_neg_str\<close> for \<^verbatim>\<open>{-x}\<close> (which tells \<^verbatim>\<open>-0.0\<close> from \<^verbatim>\<open>0.0\<close>) and
  \<open>float_1f\<close> for \<^verbatim>\<open>{x:.1f}\<close>.
\<close>

record float_format =
  float_str :: "rat \<Rightarrow> string"
  float_neg_str :: "rat \<Rightarrow> string"
  float_1f :: "rat \<Rightarrow> string"

text \<open>
  \<^verbatim>\<open>offset\<close> starts as the integer 0, printed \<^verbatim>\<open>0\<close>, and is a float from the first
  \<^verbatim>\<open>offset += length\<close> on. The source's \<^verbatim>\<open>total\<close> and \<^verbatim>\<open>length\<close> are \<open>total_pct\<close> and
  \<open>seg_length\<close> here, and its list \<^verbatim>\<open>donut_segments\<close> is \<open>segments\<close>.
\<close>

datatype pynum = PyInt int | PyFloat rat

fun neg_str :: "float_format \<Rightarrow> pynum \<Rightarrow> string" where
  "neg_str fmt (PyInt i) = str_int (- i)"
| "neg_str fmt (PyFloat x) = float_neg_str fmt x"

fun add_float :: "pynum \<Rightarrow> rat \<Rightarrow> pynum" where
  "add_float (PyInt i) x = PyFloat (of_int i + x)"
| "add_float (PyFloat y) x = PyFloat (y + x)"

text \<open>The f-string of one segment of the donut, and the loop that appends the segments.\<close>

definition donut_segment_text ::
  "int \<Rightarrow> int \<Rightarrow> int \<Rightarrow> int \<Rightarrow> language \<Rightarrow> string \<Rightarrow> string \<Rightarrow> string \<Rightarrow> string" where
  \<open>donut_segment_text cx cy r stroke_width lang seg_length_str rest_str neg_offset =
     concat
       [
        ''<circle cx="'', str_int cx, ''" cy="'', str_int cy, ''" r="'', str_int r, ''" fill="none" \<newline>'',
        ''            stroke="'', color lang, ''" stroke-width="'', str_int stroke_width, ''"\<newline>'',
        ''            stroke-dasharray="'', seg_length_str, '' '', rest_str, ''"\<newline>'',
        ''            stroke-dashoffset="'', neg_offset, ''"\<newline>'',
        ''            transform="rotate(-90, '', str_int cx, '', '', str_int cy, '')"/>''
       ]\<close>

fun donut_segments :: "float_format \<Rightarrow> rat \<Rightarrow> pynum \<Rightarrow> language list \<Rightarrow> string list" where
  \<open>donut_segments fmt total_pct offset [] = []\<close>
| \<open>donut_segments fmt total_pct offset (lang # top_langs) =
     (let cx = 100; cy = 100; r = 70;
          stroke_width = 30;
          circumference = 2 * (314159 / 100000) * of_int r;
          pct = (if total_pct > 0 then percentage lang / total_pct else 0);
          seg_length = circumference * pct;
          neg_offset = neg_str fmt offset
      in donut_segment_text cx cy r stroke_width lang
           (float_str fmt seg_length) (float_str fmt (circumference - seg_length)) neg_offset
         # donut_segments fmt total_pct (add_float offset seg_length) top_langs)\<close>

definition legend_item :: "float_format \<Rightarrow> nat \<times> language \<Rightarrow> string" where
  \<open>legend_item fmt p =
     (let i = fst p; lang = snd p; y_offset = 30 + int i * 25
      in concat
         [
          ''\<newline>'',
          ''        <g transform="translate(220, '', str_int y_offset, '')">\<newline>'',
          ''            <circle cx="6" cy="6" r="6" fill="'', color lang, ''"/>\<newline>'',
          ''            <text x="18" y="10" class="lang-name">'', name lang, ''</text>\<newline>'',
          ''            <text x="200" y="10" class="lang-pct">'', float_1f fmt (percentage lang), ''%</text>\<newline>'',
          ''        </g>''
         ])\<close>

text \<open>The f-string of the top languages card.\<close>

definition top_langs_svg_text ::
  "string \<Rightarrow> string \<Rightarrow> string \<Rightarrow> string \<Rightarrow> int \<Rightarrow> string list \<Rightarrow> string list \<Rightarrow> string" where
  \<open>top_langs_svg_text t_title t_text t_bg t_border height segments legend_items =
     concat
       [
        ''<svg width="450" height="'', str_int height, ''" viewBox="0 0 450 '', str_int height, ''" fill="none" xmlns="http://www.w3.org/2000/svg">\<newline>'',
        ''  <style>\<newline>'',
        ''    .header { font: 600 18px 'Segoe UI', Ubuntu, Sans-Serif; fill: '', t_title, ''; }\<newline>'',
        ''    .lang-name { font: 400 12px 'Segoe UI', Ubuntu, Sans-Serif; fill: '', t_text, ''; }\<newline>'',
        ''    .lang-pct { font: 600 12px 'Segoe UI', Ubuntu, Sans-Serif; fill: '', t_text, ''; }\<newline>'',
        ''  </style>\<newline>'',
        ''  <rect x="0.5" y="0.5" rx="4.5" width="449" height="'', str_int (height - 1), ''" fill="'', t_bg, ''" stroke="'', t_border, ''"/>\<newline>'',
        ''  <text class="header" x="25" y="30">Most Used Languages</text>\<newline>'',
        ''  <g transform="translate(5, 30)">\<newline>'',
        ''    '', concat segments, ''\<newline>'',
        ''  </g>\<newline>'',
        ''  '', concat legend_items, ''\<newline>'',
        ''</svg>''
       ]\<close>

definition generate_top_langs_svg ::
  "float_format \<Rightarrow> language list \<Rightarrow> string \<Rightarrow> string \<Rightarrow> string option" where
  \<open>generate_top_langs_svg fmt languages theme layout =
     do {
       merko \<leftarrow> map_of top_langs_themes ''merko'';
       let t = dict_get top_langs_themes theme merko;
       let top_langs = take 10 languages;
       let total_pct = sum_list (map percentage top_langs);
       let segments = donut_segments fmt total_pct (PyInt 0) top_langs;
       let legend_items = map (legend_item fmt) (enumerate 0 top_langs);
       let height = max 200 (30 + int (length top_langs) * 25 + 30);
       t_title \<leftarrow> map_of t ''title'';
       t_text \<leftarrow> map_of t ''text'';
       t_bg \<leftarrow> map_of t ''bg'';
       t_border \<leftarrow> map_of t ''border'';
       Some (top_langs_svg_text t_title t_text t_bg t_border height segments legend_items)
     }\<close>

subsection \<open>The streak card\<close>

text \<open>
  \<^verbatim>\<open>format_date\<close> parses the ISO string of a date and prints it with the format
  \<^verbatim>\<open>%b %d, %Y\<close>; the text of a date in that format is the parameter \<open>strftime\<close>. A
  missing date gives \<^verbatim>\<open>N/A\<close>. The card does not print \<^verbatim>\<open>username\<close>.
\<close>

definition format_date :: "(isodate \<Rightarrow> string) \<Rightarrow> isodate option \<Rightarrow> string" where
  "format_date strftime d = (case d of None \<Rightarrow> ''N/A'' | Some dt \<Rightarrow> strftime dt)"

text \<open>The f-string of the streak card.\<close>

definition streak_svg_text ::
  "string \<Rightarrow> string \<Rightarrow> string \<Rightarrow> string \<Rightarrow> string \<Rightarrow> streaks \<Rightarrow> string \<Rightarrow> string \<Rightarrow> string" where
  \<open>streak_svg_text t_title t_text t_dates t_bg t_ring streaks current_range longest_range =
     concat
       [
        ''<svg width="495" height="195" viewBox="0 0 495 195" fill="none" xmlns="http://www.w3.org/2000/svg">\<newline>'',
        ''  <style>\<newline>'',
        ''    .header { font: 600 14px 'Segoe UI', Ubuntu, Sans-Serif; fill: '', t_title, ''; }\<newline>'',
        ''    .stat { font: 700 28px 'Segoe UI', Ubuntu, Sans-Serif; fill: '', t_text, ''; }\<newline>'',
        ''    .label { font: 400 12px 'Segoe UI', Ubuntu, Sans-Serif; fill: '', t_title, ''; }\<newline>'',
        ''    .dates { font: 400 10px 'Segoe UI', Ubuntu, Sans-Serif; fill: '', t_dates, ''; }\<newline>'',
        ''  </style>\<newline>'',
        ''  <rect x="0.5" y="0.5" rx="4.5" width="494" height="194" fill="'', t_bg, ''" stroke="none"/>\<newline>'',
        ''  \<newline>'',
        ''  <!-- Total Contributions -->\<newline>'',
        ''  <g transform="translate(50, 48)">\<newline>'',
        ''    <text class="header" x="40" y="0" text-anchor="middle">Total Contributions</text>\<newline>'',
        ''    <text class="stat" x="40" y="40" text-anchor="middle">'', format_commas (streaks.total streaks), ''</text>\<newline>'',
        ''    <text class="dates" x="40" y="58" text-anchor="middle">All Time</text>\<newline>'',
        ''  </g>\<newline>'',
        ''  \<newline>'',
        ''  <!-- Current Streak -->\<newline>'',
        ''  <g transform="translate(205, 48)">\<newline>'',
        ''    <text class="header" x="40" y="0" text-anchor="middle">Current Streak</text>\<newline>'',
        ''    <!-- Fire icon / ring -->\<newline>'',
        ''    <circle cx="40" cy="50" r="35" fill="none" stroke="'', t_ring, ''" stroke-width="4"/>\<newline>'',
        ''    <text class="stat" x="40" y="58" text-anchor="middle">'', str_int (current streaks), ''</text>\<newline>'',
        ''    <text class="dates" x="40" y="100" text-anchor="middle">'', (if current_range \<noteq> [] then current_range else ''No active streak''), ''</text>\<newline>'',
        ''  </g>\<newline>'',
        ''  \<newline>'',
        ''  <!-- Longest Streak -->\<newline>'',
        ''  <g transform="translate(365, 48)">\<newline>'',
        ''    <text class="header" x="40" y="0" text-anchor="middle">Longest Streak</text>\<newline>'',
        ''    <text class="stat" x="40" y="40" text-anchor="middle">'', str_int (longest streaks), ''</text>\<newline>'',
        ''    <text class="dates" x="40" y="58" text-anchor="middle">'', (if longest_range \<noteq> [] then longest_range else ''N/A''), ''</text>\<newline>'',
        ''  </g>\<newline>'',
        ''</svg>''
       ]\<close>

definition generate_streak_svg ::
  "(isodate \<Rightarrow> string) \<Rightarrow> streaks \<Rightarrow> string \<Rightarrow> string \<Rightarrow> string option" where
  \<open>generate_streak_svg strftime streaks username theme =
     do {
       tokyonight \<leftarrow> map_of streak_themes ''tokyonight'';
       let t = dict_get streak_themes theme tokyonight;
       let current_range =
         (if current_start streaks \<noteq> None \<and> current_end streaks \<noteq> None
          then format_date strftime (current_start streaks) @ '' - '' @
               format_date strftime (current_end streaks)
          else []);
       let longest_range =
         (if longest_start streaks \<noteq> None \<and> longest_end streaks \<noteq> None
          then format_date strftime (longest_start streaks) @ '' - '' @
               format_date strftime (longest_end streaks)
          else []);
       t_title \<leftarrow> map_of t ''title'';
       t_text \<leftarrow> map_of t ''text'';
       t_dates \<leftarrow> map_of t ''dates'';
       t_bg \<leftarrow> map_of t ''bg'';
       t_ring \<leftarrow> map_of t ''ring'';
       Some (streak_svg_text t_title t_text t_dates t_bg t_ring streaks current_range
         longest_range)
     }\<close>

section \<open>Properties of the streak computation\<close>

lemma walk_longest_nonneg:
  "0 \<le> longest_streak s \<Longrightarrow> 0 \<le> longest_streak (walk A today c s)"
proof (induction A today c s rule: walk.induct)
  case (1 A today c s)
  show ?case
  proof (cases "c \<le> today")
    case True
    have "0 \<le> longest_streak (walk_step A c s)"
      using "1.prems" by (simp add: walk_step_def)
    with "1.IH" True show ?thesis by (simp add: walk.simps [of A today c s])
  next
    case False
    with "1.prems" show ?thesis by (simp add: walk.simps [of A today c s])
  qed
qed

lemma walk_step_streak_nonneg: "0 \<le> streak s \<Longrightarrow> 0 \<le> streak (walk_step A c s)"
  by (simp add: walk_step_def)

text \<open>
  The loop visits \<open>today\<close> last. When \<open>today\<close> is not an active date, the last iteration
  takes the branch that resets \<open>streak\<close>, so no run is open after the loop.
\<close>

lemma walk_streak_zero:
  "today \<notin> A \<Longrightarrow> 0 \<le> streak s \<Longrightarrow> streak s = 0 \<or> c \<le> today \<Longrightarrow>
   streak (walk A today c s) = 0"
proof (induction A today c s rule: walk.induct)
  case (1 A today c s)
  show ?case
  proof (cases "c \<le> today")
    case True
    have "streak (walk_step A c s) = 0 \<or> c + 1 \<le> today"
    proof (cases "c = today")
      case True
      with "1.prems" show ?thesis by (simp add: walk_step_def)
    next
      case False
      with \<open>c \<le> today\<close> show ?thesis by simp
    qed
    with "1.IH" True "1.prems" walk_step_streak_nonneg [of s A c] show ?thesis
      by (simp add: walk.simps [of A today c s])
  next
    case False
    with "1.prems" show ?thesis by (simp add: walk.simps [of A today c s])
  qed
qed

lemma contrib_dates_empty:
  "(contrib_dates_of (sorted_days days) = {}) = (\<forall>d \<in> set days. contributionCount d \<le> 0)"
  by (auto simp: contrib_dates_of_def sorted_days_def filter_empty_conv)

lemma close_open_run_covers:
  "0 \<le> longest_streak s \<Longrightarrow>
   (if streak s > 0 \<and> P then streak s else 0) \<le> longest_streak (close_open_run A today s)"
  by (auto simp: close_open_run_def)

text \<open>
  Without an active \<open>today\<close> the reported current streak is 0, whatever happened
  yesterday: the test for yesterday after the loop is never reached with an open run.
\<close>

lemma inactive_today_no_current:
  assumes "today \<notin> contrib_dates_of (sorted_days days)"
  shows "current (calculate_streaks days today) = 0"
proof -
  let ?A = "contrib_dates_of (sorted_days days)"
  have "streak (walk ?A today (hd (sorted_list_of_set ?A)) initial_state) = 0"
    using assms by (intro walk_streak_zero) (simp_all add: initial_state_def)
  then show ?thesis
    by (simp add: calculate_streaks_def Let_def)
qed

text \<open>
  Claim C1. A series whose only active day is yesterday should give a current streak of 1
  ending yesterday. The code gives none: with today = day 10 and one contribution on day 9,
  the run is closed by the iteration for day 10 and the result has current = 0 and no
  current range; the run is reported as the longest one only.
\<close>

theorem yesterday_only_streaks:
  "calculate_streaks [\<lparr>date = 9, contributionCount = 1\<rparr>] 10 =
     \<lparr>total = 1, current = 0, current_start = None, current_end = None,
      longest = 1, longest_start = Some 9, longest_end = Some 9\<rparr>"
  by code_simp

text \<open>
  Claim C2. For every list of day records and every reference date, the result has
  longest at least current.
\<close>

theorem longest_ge_current:
  "current (calculate_streaks days today) \<le> longest (calculate_streaks days today)"
proof -
  let ?A = "contrib_dates_of (sorted_days days)"
  let ?s = "walk ?A today (hd (sorted_list_of_set ?A)) initial_state"
  have "0 \<le> longest_streak ?s"
    by (rule walk_longest_nonneg) (simp add: initial_state_def)
  then show ?thesis
    using close_open_run_covers [of ?s _ ?A today]
    by (simp add: calculate_streaks_def Let_def)
qed

text \<open>
  Claim C8. A series with no day of positive count, the empty series included, gives the
  zero result: total, current and longest are 0 and no date is reported. The function
  returns this value; nothing is raised.
\<close>

theorem empty_history:
  "\<forall>d \<in> set days. contributionCount d \<le> 0 \<Longrightarrow>
   calculate_streaks days today =
     \<lparr>total = 0, current = 0, current_start = None, current_end = None,
      longest = 0, longest_start = None, longest_end = None\<rparr>"
  using contrib_dates_empty [of days] by (simp add: calculate_streaks_def Let_def)

theorem empty_history_witness:
  "contributionCount \<lparr>date = 3, contributionCount = 0\<rparr> \<le> 0 \<and>
   calculate_streaks [\<lparr>date = 3, contributionCount = 0\<rparr>] 5 =
     \<lparr>total = 0, current = 0, current_start = None, current_end = None,
      longest = 0, longest_start = None, longest_end = None\<rparr>"
  using empty_history [of "[\<lparr>date = 3, contributionCount = 0\<rparr>]" 5] by simp

subsection \<open>The earliest of the longest runs\<close>

lemma run_start_unique:
  assumes "\<forall>d\<in>{s..e}. d \<in> A" "s - 1 \<notin> A" "s \<le> e"
      and "\<forall>d\<in>{s'..e}. d \<in> A" "s' - 1 \<notin> A" "s' \<le> e"
  shows "s = (s'::int)"
proof (rule ccontr)
  assume "s \<noteq> s'"
  then consider "s < s'" | "s' < s" by linarith
  then show False
  proof cases
    case 1
    then have "s' - 1 \<in> {s..e}" using assms by simp
    with assms show False by blast
  next
    case 2
    then have "s - 1 \<in> {s'..e}" using assms by simp
    with assms show False by blast
  qed
qed

lemma open_run_step_active:
  assumes "open_run A c st" "c \<in> A"
  shows "open_run A (c + 1) (walk_step A c st)"
proof -
  have "d \<in> A" if "c - streak st \<le> d" "d < c + 1" for d
  proof (cases "d = c")
    case True
    with assms show ?thesis by simp
  next
    case False
    with that have "d < c" by simp
    with that assms show ?thesis by (simp add: open_run_def)
  qed
  moreover have "0 \<le> streak st" "c - streak st - 1 \<notin> A"
    "streak_start st = (if streak st > 0 then Some (c - streak st) else None)"
    using assms by (simp_all add: open_run_def)
  ultimately show ?thesis
    by (simp add: open_run_def walk_step_def)
qed

lemma open_run_step_inactive:
  assumes "open_run A c st" "c \<notin> A"
  shows "open_run A (c + 1) (walk_step A c st)"
  using assms by (auto simp: open_run_def walk_step_def)

lemma closed_run_step_active:
  assumes "c \<in> A"
  shows "closed_run A (c + 1) s e = closed_run A c s e"
proof -
  have "e + 1 < c" if "e + 1 \<notin> A" "e + 1 < c + 1"
  proof -
    from that assms have "e + 1 \<noteq> c" by auto
    with that show ?thesis by simp
  qed
  then show ?thesis by (auto simp: closed_run_def)
qed

lemma best_closed_step_active:
  assumes "best_closed A c st" "c \<in> A"
  shows "best_closed A (c + 1) (walk_step A c st)"
  using assms by (simp add: best_closed_def closed_run_step_active walk_step_def)

lemma closed_run_step_idle:
  assumes "c \<notin> A" "c - 1 \<notin> A"
  shows "closed_run A (c + 1) s e = closed_run A c s e"
proof -
  have "e + 1 \<noteq> c" if "\<forall>d\<in>{s..e}. d \<in> A" "s \<le> e"
    using that assms by auto
  then show ?thesis by (auto simp: closed_run_def)
qed

lemma closed_run_step_close:
  assumes "open_run A c st" "c \<notin> A" "0 < streak st"
  shows "closed_run A (c + 1) s e \<longleftrightarrow> closed_run A c s e \<or> (s = c - streak st \<and> e = c - 1)"
proof
  assume r: "closed_run A (c + 1) s e"
  show "closed_run A c s e \<or> (s = c - streak st \<and> e = c - 1)"
  proof (cases "e + 1 < c")
    case True
    with r show ?thesis by (simp add: closed_run_def)
  next
    case False
    with r have e: "e = c - 1" by (simp add: closed_run_def)
    have "s = c - streak st"
    proof (rule run_start_unique [where e = e and A = A])
      show "\<forall>d\<in>{s..e}. d \<in> A" "s - 1 \<notin> A" "s \<le> e" using r by (simp_all add: closed_run_def)
      show "\<forall>d\<in>{c - streak st..e}. d \<in> A" "c - streak st - 1 \<notin> A" "c - streak st \<le> e"
        using assms e by (auto simp: open_run_def)
    qed
    with e show ?thesis by simp
  qed
next
  assume "closed_run A c s e \<or> (s = c - streak st \<and> e = c - 1)"
  then show "closed_run A (c + 1) s e"
    using assms by (auto simp: closed_run_def open_run_def)
qed

lemma closed_before_open:
  assumes "open_run A c st" "closed_run A c s e"
  shows "e < c - streak st"
proof (rule ccontr)
  assume "\<not> e < c - streak st"
  then have "c - streak st \<le> e + 1" "e + 1 < c" using assms by (simp_all add: closed_run_def)
  then have "e + 1 \<in> A" using assms by (simp add: open_run_def)
  with assms show False by (simp add: closed_run_def)
qed


lemma best_closed_step_idle:
  assumes "open_run A c st" "best_closed A c st" "c \<notin> A" "streak st = 0"
  shows "best_closed A (c + 1) (walk_step A c st)"
proof -
  have "c - 1 \<notin> A" using assms by (simp add: open_run_def)
  then have "closed_run A (c + 1) s e = closed_run A c s e" for s e
    using assms closed_run_step_idle by simp
  moreover have "walk_step A c st = st"
    using assms by (simp add: walk_step_def)
  ultimately show ?thesis
    using assms by (simp add: best_closed_def)
qed

lemma best_closed_step_replace:
  assumes o: "open_run A c st" and b: "best_closed A c st" and c: "c \<notin> A"
      and k: "0 < streak st" "longest_streak st < streak st"
  shows "best_closed A (c + 1) (walk_step A c st)"
proof -
  let ?s = "c - streak st" and ?e = "c - 1"
  let ?st = "walk_step A c st"
  have runs: "closed_run A (c + 1) s e \<longleftrightarrow> closed_run A c s e \<or> (s = ?s \<and> e = ?e)" for s e
    using closed_run_step_close [OF o c k(1)] .
  have new: "longest_streak ?st = ?e - ?s + 1" "longest_start_date ?st = Some ?s"
    "longest_end_date ?st = Some ?e"
    using o c k by (simp_all add: walk_step_def open_run_def)
  have old: "e - s + 1 \<le> longest_streak st" if "closed_run A c s e" for s e
    using b that by (auto simp: best_closed_def)
  have "e' - s' \<le> ?e - ?s \<and> (e' - s' = ?e - ?s \<longrightarrow> ?s \<le> s')" if "closed_run A (c + 1) s' e'" for s' e'
  proof (cases "s' = ?s \<and> e' = ?e")
    case True
    then show ?thesis by simp
  next
    case False
    with that runs have "closed_run A c s' e'" by simp
    from old [OF this] k show ?thesis by simp
  qed
  moreover have "closed_run A (c + 1) ?s ?e" using runs by simp
  ultimately show ?thesis
    unfolding best_closed_def using new by blast
qed

lemma best_closed_step_keep:
  assumes o: "open_run A c st" and b: "best_closed A c st" and c: "c \<notin> A"
      and k: "0 < streak st" "\<not> longest_streak st < streak st"
  shows "best_closed A (c + 1) (walk_step A c st)"
proof -
  let ?s = "c - streak st" and ?e = "c - 1"
  let ?st = "walk_step A c st"
  have runs: "closed_run A (c + 1) s e \<longleftrightarrow> closed_run A c s e \<or> (s = ?s \<and> e = ?e)" for s e
    using closed_run_step_close [OF o c k(1)] .
  have same: "longest_streak ?st = longest_streak st"
    "longest_start_date ?st = longest_start_date st"
    "longest_end_date ?st = longest_end_date st"
    using c k by (simp_all add: walk_step_def)
  from b k obtain s0 e0 where r0: "closed_run A c s0 e0"
    and l0: "longest_streak st = e0 - s0 + 1"
    "longest_start_date st = Some s0" "longest_end_date st = Some e0"
    and m0: "\<And>s' e'. closed_run A c s' e' \<Longrightarrow> e' - s' \<le> e0 - s0 \<and> (e' - s' = e0 - s0 \<longrightarrow> s0 \<le> s')"
    unfolding best_closed_def by auto
  have "e0 < ?s" using closed_before_open [OF o r0] .
  moreover have "s0 \<le> e0" using r0 by (simp add: closed_run_def)
  ultimately have first: "s0 \<le> ?s" by simp
  have "e' - s' \<le> e0 - s0 \<and> (e' - s' = e0 - s0 \<longrightarrow> s0 \<le> s')" if "closed_run A (c + 1) s' e'" for s' e'
  proof (cases "s' = ?s \<and> e' = ?e")
    case True
    with k l0 first show ?thesis by simp
  next
    case False
    with that runs have "closed_run A c s' e'" by simp
    from m0 [OF this] show ?thesis .
  qed
  moreover have "closed_run A (c + 1) s0 e0" using runs r0 by simp
  ultimately show ?thesis
    unfolding best_closed_def using same l0 by metis
qed

lemma walk_inv_step:
  assumes "walk_inv A c st"
  shows "walk_inv A (c + 1) (walk_step A c st)"
proof (cases "c \<in> A")
  case True
  with assms show ?thesis
    by (simp add: walk_inv_def open_run_step_active best_closed_step_active)
next
  case False
  from assms have o: "open_run A c st" and b: "best_closed A c st"
    by (simp_all add: walk_inv_def)
  have "0 \<le> streak st" using o by (simp add: open_run_def)
  then consider "streak st = 0" | "0 < streak st" "longest_streak st < streak st"
    | "0 < streak st" "\<not> longest_streak st < streak st" by linarith
  then have "best_closed A (c + 1) (walk_step A c st)"
  proof cases
    case 1
    then show ?thesis using best_closed_step_idle [OF o b False] by simp
  next
    case 2
    then show ?thesis using best_closed_step_replace [OF o b False] by simp
  next
    case 3
    then show ?thesis using best_closed_step_keep [OF o b False] by simp
  qed
  with o False show ?thesis
    by (simp add: walk_inv_def open_run_step_inactive)
qed

lemma walk_inv_walk:
  "walk_inv A c st \<Longrightarrow> c \<le> today + 1 \<Longrightarrow> walk_inv A (today + 1) (walk A today c st)"
proof (induction A today c st rule: walk.induct)
  case (1 A today c st)
  show ?case
  proof (cases "c \<le> today")
    case True
    with "1.IH" walk_inv_step [OF "1.prems"(1)] show ?thesis
      by (simp add: walk.simps [of A today c st])
  next
    case False
    then have "walk A today c st = st" by (simp add: walk.simps [of A today c st])
    moreover from False "1.prems" have "c = today + 1" by simp
    ultimately show ?thesis using "1.prems" by simp
  qed
qed


lemma walk_inv_initial:
  assumes "\<forall>d\<in>A. m \<le> d"
  shows "walk_inv A m initial_state"
proof -
  have "\<not> closed_run A m s e" for s e
  proof
    assume r: "closed_run A m s e"
    then have "e \<in> A" by (simp add: closed_run_def)
    with assms have "m \<le> e" by simp
    with r show False by (simp add: closed_run_def)
  qed
  moreover have "m - 1 \<notin> A" using assms by auto
  ultimately show ?thesis
    by (auto simp: walk_inv_def open_run_def best_closed_def initial_state_def)
qed

lemma hd_sorted_list_of_set_least:
  assumes "finite A" "A \<noteq> {}"
  shows "\<forall>d\<in>A. hd (sorted_list_of_set A) \<le> (d :: int)"
  using assms by (simp add: sorted_list_of_set_nonempty)

text \<open>What the code after the loop computes, from the invariant at \<open>today + 1\<close>.\<close>

lemma close_open_run_earliest:
  assumes inv: "walk_inv A (today + 1) st"
      and run: "is_run A today s e"
      and best: "\<And>s' e'. is_run A today s' e' \<Longrightarrow> e' - s' \<le> e - s \<and> (e' - s' = e - s \<longrightarrow> s \<le> s')"
  shows "longest_streak (close_open_run A today st) = e - s + 1 \<and>
         longest_start_date (close_open_run A today st) = Some s \<and>
         longest_end_date (close_open_run A today st) = Some e"
proof -
  let ?c = "today + 1"
  let ?k = "streak st"
  from inv have o: "open_run A ?c st" and b: "best_closed A ?c st"
    by (simp_all add: walk_inv_def)
  have closed_is_run: "is_run A today s' e'" if "closed_run A ?c s' e'" for s' e'
    using that by (simp add: is_run_def closed_run_def)
  have open_is_run: "is_run A today (?c - ?k) today" if "0 < ?k"
    using that o by (simp add: is_run_def open_run_def)
  have k0: "0 \<le> ?k" using o by (simp add: open_run_def)
  show ?thesis
  proof (cases "e = today")
    case True
    with run have "today \<in> A" by (simp add: is_run_def)
    with o k0 have k: "0 < ?k" by (cases "?k = 0") (simp_all add: open_run_def)
    have s: "s = ?c - ?k"
    proof (rule run_start_unique [where e = today and A = A])
      show "\<forall>d\<in>{s..today}. d \<in> A" "s - 1 \<notin> A" "s \<le> today"
        using run True by (simp_all add: is_run_def)
      show "\<forall>d\<in>{?c - ?k..today}. d \<in> A" "?c - ?k - 1 \<notin> A" "?c - ?k \<le> today"
        using o k by (simp_all add: open_run_def)
    qed
    have shorter: "e' - s' + 1 < ?k" if r: "closed_run A ?c s' e'" for s' e'
    proof -
      from best [OF closed_is_run [OF r]] True s
      have le: "e' - s' \<le> ?k - 1" and tie: "e' - s' = ?k - 1 \<Longrightarrow> ?c - ?k \<le> s'" by simp_all
      have "e' < ?c - ?k" using closed_before_open [OF o r] .
      moreover have "s' \<le> e'" using r by (simp add: closed_run_def)
      ultimately have "\<not> ?c - ?k \<le> s'" by simp
      with tie have "e' - s' \<noteq> ?k - 1" by blast
      with le show ?thesis by simp
    qed
    have "longest_streak st < ?k"
      using b k shorter by (auto simp: best_closed_def)
    with k o True s \<open>today \<in> A\<close> show ?thesis
      by (simp add: close_open_run_def open_run_def)
  next
    case False
    with run have r: "closed_run A ?c s e" by (simp add: is_run_def closed_run_def)
    with b obtain s0 e0 where r0: "closed_run A ?c s0 e0"
      and l0: "longest_streak st = e0 - s0 + 1"
      "longest_start_date st = Some s0" "longest_end_date st = Some e0"
      and m0: "\<And>s' e'. closed_run A ?c s' e' \<Longrightarrow> e' - s' \<le> e0 - s0 \<and> (e' - s' = e0 - s0 \<longrightarrow> s0 \<le> s')"
      unfolding best_closed_def by blast
    from m0 [OF r] best [OF closed_is_run [OF r0]] have "s0 = s" by linarith
    moreover from m0 [OF r] best [OF closed_is_run [OF r0]] have "e0 - s0 = e - s" by linarith
    ultimately have eq: "s0 = s" "e0 = e" by simp_all
    have "\<not> (0 < ?k \<and> longest_streak st < ?k)"
    proof
      assume a: "0 < ?k \<and> longest_streak st < ?k"
      with best [OF open_is_run] have "today - (?c - ?k) \<le> e - s" by simp
      with a l0 eq show False by simp
    qed
    with l0 eq show ?thesis by (simp add: close_open_run_def)
  qed
qed

text \<open>
  Claim C4. When several runs share the greatest length, the result reports the earliest
  of them: for a run \<open>[s, e]\<close> found by the walk such that no run is longer and no run
  of the same length starts before \<open>s\<close>, the longest streak has the length, the start
  and the end of that run. A later run of the same length, closed or still open at
  \<open>today\<close>, does not replace it.
\<close>

theorem earliest_longest_run_kept:
  assumes run: "is_run (contrib_dates_of (sorted_days days)) today s e"
      and longest: "\<forall>s' e'. is_run (contrib_dates_of (sorted_days days)) today s' e' \<longrightarrow> e' - s' \<le> e - s"
      and earliest: "\<forall>s' e'. is_run (contrib_dates_of (sorted_days days)) today s' e' \<and> e' - s' = e - s \<longrightarrow> s \<le> s'"
  shows "longest (calculate_streaks days today) = e - s + 1 \<and>
         longest_start (calculate_streaks days today) = Some s \<and>
         longest_end (calculate_streaks days today) = Some e"
proof -
  let ?A = "contrib_dates_of (sorted_days days)"
  let ?m = "hd (sorted_list_of_set ?A)"
  from run have sA: "s \<in> ?A" and se: "s \<le> today" by (simp_all add: is_run_def)
  then have ne: "?A \<noteq> {}" by blast
  have fin: "finite ?A" by (simp add: contrib_dates_of_def)
  have least: "\<forall>d\<in>?A. ?m \<le> d" using hd_sorted_list_of_set_least [OF fin ne] .
  with sA se have "?m \<le> today + 1" by fastforce
  with walk_inv_walk [OF walk_inv_initial [OF least]]
  have "walk_inv ?A (today + 1) (walk ?A today ?m initial_state)" by simp
  from close_open_run_earliest [OF this run] longest earliest
  show ?thesis using ne by (simp add: calculate_streaks_def Let_def)
qed


theorem earliest_longest_run_kept_witness:
  "longest (calculate_streaks
      [\<lparr>date = 1, contributionCount = 2\<rparr>, \<lparr>date = 3, contributionCount = 1\<rparr>] 3) = 1 \<and>
   longest_start (calculate_streaks
      [\<lparr>date = 1, contributionCount = 2\<rparr>, \<lparr>date = 3, contributionCount = 1\<rparr>] 3) = Some 1 \<and>
   longest_end (calculate_streaks
      [\<lparr>date = 1, contributionCount = 2\<rparr>, \<lparr>date = 3, contributionCount = 1\<rparr>] 3) = Some 1"
proof -
  let ?days = "[\<lparr>date = 1, contributionCount = 2\<rparr>, \<lparr>date = 3, contributionCount = 1\<rparr>]"
  have A: "contrib_dates_of (sorted_days ?days) = {1, 3}"
    by (auto simp: contrib_dates_of_def sorted_days_def)
  have runs: "s' = e'" if "is_run {1, 3} 3 s' e'" for s' e'
  proof (rule ccontr)
    assume ne: "s' \<noteq> e'"
    from that have "s' \<in> {1, 3}" "e' \<in> {1, 3}" "s' \<le> e'" by (auto simp: is_run_def)
    with ne have "s' = 1" "e' = 3" by auto
    with that have "\<forall>d\<in>{1..3}. d \<in> {1, 3 :: int}" by (simp add: is_run_def)
    moreover have "(2 :: int) \<in> {1..3}" by simp
    ultimately have "2 \<in> {1, 3 :: int}" by blast
    then show False by simp
  qed
  have first: "1 \<le> s'" if "is_run {1, 3} 3 s' e'" for s' e'
  proof -
    from that have "s' \<in> {1, 3}" by (auto simp: is_run_def)
    then show ?thesis by auto
  qed
  have "is_run {1, 3} 3 1 1" by (simp add: is_run_def)
  moreover have "\<forall>s' e'. is_run {1, 3} 3 s' e' \<longrightarrow> e' - s' \<le> 1 - 1"
    using runs by auto
  moreover have "\<forall>s' e'. is_run {1, 3} 3 s' e' \<and> e' - s' = 1 - 1 \<longrightarrow> 1 \<le> s'"
    using first by auto
  ultimately show ?thesis
    using earliest_longest_run_kept [of ?days 3 1 1] unfolding A by simp
qed

section \<open>Properties of the collected series\<close>

lemma foldl_append_concat: "foldl (\<lambda>acc days. acc @ days) acc batches = acc @ concat batches"
  by (induction batches arbitrary: acc) simp_all

lemma all_days_concat: "all_days batches = concat batches"
  by (simp add: all_days_def foldl_append_concat)

lemma sum_list_sort_key:
  fixes f :: "'a \<Rightarrow> 'b :: comm_monoid_add"
  shows "sum_list (map f (sort_key k xs)) = sum_list (map f xs)"
proof -
  have "mset (map f (sort_key k xs)) = mset (map f xs)" by simp
  then show ?thesis by (metis sum_mset_sum_list)
qed

lemma total_is_sum:
  assumes "\<forall>r\<in>set days. 0 \<le> contributionCount r"
  shows "streaks.total (calculate_streaks days today) = sum_list (map contributionCount days)"
proof (cases "contrib_dates_of (sorted_days days) = {}")
  case True
  then have "\<forall>r\<in>set days. contributionCount r \<le> 0" by (simp add: contrib_dates_empty)
  with assms have "\<forall>r\<in>set days. contributionCount r = 0" by fastforce
  then have "sum_list (map contributionCount days) = 0" by (induction days) simp_all
  with True show ?thesis by (simp add: calculate_streaks_def Let_def)
next
  case False
  then show ?thesis
    by (simp add: calculate_streaks_def Let_def sorted_days_def sum_list_sort_key)
qed

lemma distinct_dates_sorted:
  "distinct (map date (sorted_days days)) = distinct (map date days)"
proof -
  have "mset (map date (sorted_days days)) = mset (map date days)"
    by (simp add: sorted_days_def)
  then show ?thesis by (rule mset_eq_imp_distinct_iff)
qed

lemma sorted_days_stable:
  "filter (\<lambda>r. date r = d) (sorted_days days) = filter (\<lambda>r. date r = d) days"
  by (simp add: sorted_days_def sort_key_stable)

text \<open>
  Claim C3, as the code has it. Nothing removes a duplicate date: the series the streak
  computation walks is every record of every batch, sorted by date, and the sort is
  stable: the records of one date stay in the order of the batches. Counts being
  non-negative, as the data model says, the total is the sum of the counts of all the
  records. When no date occurs twice in the batches, the series has one record per date.
\<close>

theorem merged_series_keeps_every_record:
  assumes "\<forall>r\<in>set (concat batches). 0 \<le> contributionCount r"
  shows "sorted (map date (sorted_days (all_days batches))) \<and>
         mset (sorted_days (all_days batches)) = mset (concat batches) \<and>
         (\<forall>d. filter (\<lambda>r. date r = d) (sorted_days (all_days batches)) =
               filter (\<lambda>r. date r = d) (concat batches)) \<and>
         streaks.total (calculate_streaks (all_days batches) today) =
           sum_list (map contributionCount (concat batches)) \<and>
         (distinct (map date (concat batches)) \<longrightarrow>
            distinct (map date (sorted_days (all_days batches))))"
  using assms
  by (simp add: all_days_concat total_is_sum distinct_dates_sorted sorted_days_stable)
    (simp add: sorted_days_def)

text \<open>
  Two batches that both hold day 1 with count 5: the sorted series holds the date twice
  and the total is 10, so the claim that each date is kept and counted once fails.
\<close>

theorem overlapping_batches_counted_twice:
  "\<not> distinct (map date (sorted_days
        (all_days [[\<lparr>date = 1, contributionCount = 5\<rparr>], [\<lparr>date = 1, contributionCount = 5\<rparr>]]))) \<and>
   streaks.total (calculate_streaks
        (all_days [[\<lparr>date = 1, contributionCount = 5\<rparr>], [\<lparr>date = 1, contributionCount = 5\<rparr>]]) 1) = 10"
  by code_simp

theorem merged_series_keeps_every_record_witness:
  "sorted (map date (sorted_days (all_days
       [[\<lparr>date = 2, contributionCount = 3\<rparr>], [\<lparr>date = 1, contributionCount = 4\<rparr>]]))) \<and>
   mset (sorted_days (all_days
       [[\<lparr>date = 2, contributionCount = 3\<rparr>], [\<lparr>date = 1, contributionCount = 4\<rparr>]])) =
     mset [\<lparr>date = 2, contributionCount = 3\<rparr>, \<lparr>date = 1, contributionCount = 4\<rparr>] \<and>
   streaks.total (calculate_streaks (all_days
       [[\<lparr>date = 2, contributionCount = 3\<rparr>], [\<lparr>date = 1, contributionCount = 4\<rparr>]]) 2) = 7 \<and>
   distinct (map date (sorted_days (all_days
       [[\<lparr>date = 2, contributionCount = 3\<rparr>], [\<lparr>date = 1, contributionCount = 4\<rparr>]]))) \<and>
   filter (\<lambda>r. date r = 1) (sorted_days (all_days
       [[\<lparr>date = 1, contributionCount = 5\<rparr>], [\<lparr>date = 1, contributionCount = 7\<rparr>]])) =
     [\<lparr>date = 1, contributionCount = 5\<rparr>, \<lparr>date = 1, contributionCount = 7\<rparr>]"
  using merged_series_keeps_every_record
    [of "[[\<lparr>date = 2, contributionCount = 3\<rparr>], [\<lparr>date = 1, contributionCount = 4\<rparr>]]" 2]
    merged_series_keeps_every_record
    [of "[[\<lparr>date = 1, contributionCount = 5\<rparr>], [\<lparr>date = 1, contributionCount = 7\<rparr>]]" 1]
  by simp

section \<open>Properties of the rank\<close>

text \<open>
  Claim C7. The score is commits + 2 \<times> pull requests + issues + reviews + stars, and
  each grade is the score's interval between two strict thresholds: above 10000 S+, above
  5000 S, above 2500 A+, above 1000 A, above 500 B+, above 100 B, otherwise C. It holds
  for all integer counters, the non-negative ones among them.
\<close>

theorem rank_score_thresholds:
  "score commits prs issues reviews stars = commits + 2 * prs + issues + reviews + stars \<and>
   (rank (score commits prs issues reviews stars) = ''S+'' \<longleftrightarrow>
      10000 < commits + 2 * prs + issues + reviews + stars) \<and>
   (rank (score commits prs issues reviews stars) = ''S'' \<longleftrightarrow>
      5000 < commits + 2 * prs + issues + reviews + stars \<and>
      commits + 2 * prs + issues + reviews + stars \<le> 10000) \<and>
   (rank (score commits prs issues reviews stars) = ''A+'' \<longleftrightarrow>
      2500 < commits + 2 * prs + issues + reviews + stars \<and>
      commits + 2 * prs + issues + reviews + stars \<le> 5000) \<and>
   (rank (score commits prs issues reviews stars) = ''A'' \<longleftrightarrow>
      1000 < commits + 2 * prs + issues + reviews + stars \<and>
      commits + 2 * prs + issues + reviews + stars \<le> 2500) \<and>
   (rank (score commits prs issues reviews stars) = ''B+'' \<longleftrightarrow>
      500 < commits + 2 * prs + issues + reviews + stars \<and>
      commits + 2 * prs + issues + reviews + stars \<le> 1000) \<and>
   (rank (score commits prs issues reviews stars) = ''B'' \<longleftrightarrow>
      100 < commits + 2 * prs + issues + reviews + stars \<and>
      commits + 2 * prs + issues + reviews + stars \<le> 500) \<and>
   (rank (score commits prs issues reviews stars) = ''C'' \<longleftrightarrow>
      commits + 2 * prs + issues + reviews + stars \<le> 100)"
proof -
  have sc: "score commits prs issues reviews stars = commits + 2 * prs + issues + reviews + stars"
    by (simp add: score_def)
  show ?thesis unfolding sc by (simp add: rank_def)
qed

section \<open>Properties of the language statistics\<close>

subsection \<open>Rounding to a double\<close>

lemma round_half_even_error: "\<bar>of_int (round_half_even x) - x\<bar> \<le> 1 / 2"
proof -
  define r where "r = x - of_int \<lfloor>x\<rfloor>"
  have r: "0 \<le> r" "r < 1" unfolding r_def by linarith+
  have x: "x = of_int \<lfloor>x\<rfloor> + r" by (simp add: r_def)
  consider "r < 1 / 2" | "1 / 2 < r" | "r = 1 / 2" by linarith
  then show ?thesis
  proof cases
    case 1
    then have "round_half_even x = \<lfloor>x\<rfloor>"
      by (simp add: round_half_even_def Let_def r_def)
    with r 1 x show ?thesis by linarith
  next
    case 2
    then have "round_half_even x = \<lfloor>x\<rfloor> + 1"
      by (simp add: round_half_even_def Let_def r_def)
    with r 2 x show ?thesis by linarith
  next
    case 3
    then have "round_half_even x = \<lfloor>x\<rfloor> \<or> round_half_even x = \<lfloor>x\<rfloor> + 1"
      by (simp add: round_half_even_def Let_def r_def)
    with r 3 x show ?thesis by linarith
  qed
qed

lemma bit_length_bounds:
  "0 < n \<Longrightarrow> 0 < bit_length n \<and> 2 ^ nat (bit_length n - 1) \<le> n \<and> n < 2 ^ nat (bit_length n)"
proof (induction n rule: bit_length.induct)
  case (1 n)
  have bl: "bit_length n = bit_length (n div 2) + 1"
    using "1.prems" by (simp add: bit_length.simps [of n])
  show ?case
  proof (cases "n = 1")
    case True
    have "bit_length (0 :: int) = 0" by (simp add: bit_length.simps [of 0])
    with True bl show ?thesis by simp
  next
    case False
    with "1.prems" have pos: "0 < n div 2" by simp
    with "1.IH" "1.prems" have ih: "0 < bit_length (n div 2)"
      "2 ^ nat (bit_length (n div 2) - 1) \<le> n div 2"
      "n div 2 < 2 ^ nat (bit_length (n div 2))" by simp_all
    have e: "nat (bit_length (n div 2)) = Suc (nat (bit_length (n div 2) - 1))"
      using ih(1) by simp
    have lo: "2 ^ nat (bit_length (n div 2)) \<le> n"
    proof -
      have "2 * 2 ^ nat (bit_length (n div 2) - 1) \<le> 2 * (n div 2)" using ih(2) by simp
      also have "\<dots> \<le> n" by simp
      finally show ?thesis by (simp add: e)
    qed
    have hi: "n < 2 * 2 ^ nat (bit_length (n div 2))"
    proof -
      have "n div 2 + 1 \<le> 2 ^ nat (bit_length (n div 2))" using ih(3) by simp
      then have "2 * (n div 2) + 2 \<le> 2 * 2 ^ nat (bit_length (n div 2))" by simp
      moreover have "n < 2 * (n div 2) + 2" by presburger
      ultimately show ?thesis by linarith
    qed
    have "nat (bit_length n) = Suc (nat (bit_length (n div 2)))"
      "nat (bit_length n - 1) = nat (bit_length (n div 2))"
      using ih(1) bl by simp_all
    with lo hi ih(1) bl show ?thesis by simp
  qed
qed

lemma bit_length_powi:
  assumes "0 < n"
  shows "(2 :: rat) powi (bit_length n - 1) \<le> of_int n" "of_int n < (2 :: rat) powi (bit_length n)"
proof -
  from bit_length_bounds [OF assms] have b: "0 < bit_length n"
    "2 ^ nat (bit_length n - 1) \<le> n" "n < 2 ^ nat (bit_length n)" by simp_all
  have "(of_int (2 ^ nat (bit_length n - 1)) :: rat) \<le> of_int n"
    using b(2) by (simp only: of_int_le_iff)
  then show "(2 :: rat) powi (bit_length n - 1) \<le> of_int n"
    using b(1) by (simp add: power_int_def)
  have "(of_int n :: rat) < of_int (2 ^ nat (bit_length n))"
    using b(3) by (simp only: of_int_less_iff)
  then show "of_int n < (2 :: rat) powi (bit_length n)"
    using b(1) by (simp add: power_int_def)
qed


lemma binary_exponent_bounds:
  assumes "0 < x"
  shows "2 powi binary_exponent x \<le> x" "x < 2 powi (binary_exponent x + 1)"
proof -
  obtain p q where pq: "quotient_of x = (p, q)" by (cases "quotient_of x")
  then have q: "0 < q" and x: "x = of_int p / of_int q"
    by (simp_all add: quotient_of_denom_pos quotient_of_div)
  with assms have p: "0 < p" by (simp add: zero_less_divide_iff)
  define a where "a = bit_length p"
  define b where "b = bit_length q"
  have pa: "(2 :: rat) powi (a - 1) \<le> of_int p" "of_int p < (2 :: rat) powi a"
    unfolding a_def using bit_length_powi [OF p] by simp_all
  have qb: "(2 :: rat) powi (b - 1) \<le> of_int q" "of_int q < (2 :: rat) powi b"
    unfolding b_def using bit_length_powi [OF q] by simp_all
  have qpos: "(0 :: rat) < of_int q" using q by simp
  have low: "(2 :: rat) powi (a - b - 1) \<le> x"
  proof -
    have "(2 :: rat) powi (a - b - 1) * of_int q \<le> 2 powi (a - b - 1) * 2 powi b"
      using qb(2) by (intro mult_left_mono) simp_all
    also have "\<dots> = 2 powi (a - 1)"
      by (simp add: power_int_add [symmetric])
    also have "\<dots> \<le> of_int p" by (rule pa(1))
    finally show ?thesis using qpos by (simp add: x pos_le_divide_eq)
  qed
  have high: "x < (2 :: rat) powi (a - b + 1)"
  proof -
    have "of_int p < (2 :: rat) powi a" by (rule pa(2))
    also have "\<dots> = 2 powi (a - b + 1) * 2 powi (b - 1)"
      by (simp add: power_int_add [symmetric])
    also have "\<dots> \<le> 2 powi (a - b + 1) * of_int q"
      using qb(1) by (intro mult_left_mono) simp_all
    finally show ?thesis using qpos by (simp add: x pos_divide_less_eq)
  qed
  have e: "binary_exponent x = (if 2 powi (a - b) \<le> x then a - b else a - b - 1)"
    by (simp add: binary_exponent_def pq a_def b_def Let_def)
  show "2 powi binary_exponent x \<le> x"
    using low by (simp add: e)
  show "x < 2 powi (binary_exponent x + 1)"
    using high by (simp add: e)
qed

lemma to_double_error: "\<bar>to_double x - x\<bar> \<le> \<bar>x\<bar> / 2 ^ 53"
proof (cases "x = 0")
  case True
  then show ?thesis by (simp add: to_double_def)
next
  case False
  define ulp :: rat where "ulp = 2 powi (binary_exponent \<bar>x\<bar> - 52)"
  have pos: "0 < ulp" by (simp add: ulp_def)
  have d: "to_double x = of_int (round_half_even (x / ulp)) * ulp"
    using False by (simp add: to_double_def ulp_def Let_def)
  have "\<bar>of_int (round_half_even (x / ulp)) - x / ulp\<bar> \<le> 1 / 2"
    by (rule round_half_even_error)
  then have "\<bar>of_int (round_half_even (x / ulp)) - x / ulp\<bar> * ulp \<le> 1 / 2 * ulp"
    using pos by (intro mult_right_mono) simp_all
  moreover have "\<bar>of_int (round_half_even (x / ulp)) - x / ulp\<bar> * ulp = \<bar>to_double x - x\<bar>"
  proof -
    have "\<bar>of_int (round_half_even (x / ulp)) - x / ulp\<bar> * ulp =
          \<bar>(of_int (round_half_even (x / ulp)) - x / ulp) * ulp\<bar>"
      using pos by (simp add: abs_mult)
    also have "(of_int (round_half_even (x / ulp)) - x / ulp) * ulp = to_double x - x"
      using pos by (simp add: d left_diff_distrib)
    finally show ?thesis .
  qed
  ultimately have half: "\<bar>to_double x - x\<bar> \<le> ulp / 2" by simp
  have "ulp * 2 ^ 52 = 2 powi binary_exponent \<bar>x\<bar>"
  proof -
    have "(2 :: rat) ^ 52 = 2 powi 52" by simp
    then have "ulp * 2 ^ 52 = 2 powi (binary_exponent \<bar>x\<bar> - 52) * 2 powi 52"
      by (simp only: ulp_def)
    also have "\<dots> = 2 powi (binary_exponent \<bar>x\<bar> - 52 + 52)"
      by (rule power_int_add [symmetric]) simp
    also have "\<dots> = 2 powi binary_exponent \<bar>x\<bar>" by simp
    finally show ?thesis .
  qed
  moreover have "2 powi binary_exponent \<bar>x\<bar> \<le> \<bar>x\<bar>"
    using False by (intro binary_exponent_bounds) simp
  ultimately have "ulp * 2 ^ 52 \<le> \<bar>x\<bar>" by simp
  then have "ulp / 2 \<le> \<bar>x\<bar> / 2 ^ 53" by (simp add: field_simps)
  with half show ?thesis by linarith
qed


lemma to_double_near:
  assumes "\<bar>x\<bar> \<le> b"
  shows "\<bar>to_double x - x\<bar> \<le> b / 2 ^ 53"
proof -
  have "\<bar>to_double x - x\<bar> \<le> \<bar>x\<bar> / 2 ^ 53" by (rule to_double_error)
  also have "\<dots> \<le> b / 2 ^ 53" using assms by (intro divide_right_mono) simp_all
  finally show ?thesis .
qed

lemma to_double_zero: "to_double 0 = 0"
  by (simp add: to_double_def)

lemma py_round2_zero: "py_round2 0 = 0"
  by (simp add: py_round2_def round_half_even_def to_double_zero)

lemma py_round2_near:
  assumes "\<bar>x\<bar> \<le> 101"
  shows "\<bar>py_round2 x - x\<bar> \<le> 1 / 200 + 102 / 2 ^ 53"
proof -
  define y :: rat where "y = of_int (round_half_even (x * 100)) / 100"
  have "\<bar>of_int (round_half_even (x * 100)) - x * 100\<bar> \<le> 1 / 2"
    by (rule round_half_even_error)
  then have yx: "\<bar>y - x\<bar> \<le> 1 / 200" by (simp add: y_def abs_if split: if_splits)
  with assms have "\<bar>y\<bar> \<le> 102" by linarith
  then have "\<bar>to_double y - y\<bar> \<le> 102 / 2 ^ 53" by (rule to_double_near)
  moreover have "py_round2 x = to_double y" by (simp add: py_round2_def y_def)
  ultimately show ?thesis using yx by linarith
qed

text \<open>
  The percentage of a size that is part of a positive total, computed in doubles and
  rounded, is within 0.006 of the exact percentage.
\<close>

lemma percentage_near_quotient:
  assumes "0 \<le> s" "s \<le> t" "0 < t"
  shows "\<bar>py_round2 (to_double (to_double (of_int s / of_int t) * 100)) -
          of_int s / of_int t * 100\<bar> \<le> 3 / 500"
proof -
  define q :: rat where "q = of_int s / of_int t"
  define a where "a = to_double q"
  define x where "x = to_double (a * 100)"
  have q: "0 \<le> q" "q \<le> 1" using assms by (simp_all add: q_def)
  then have "\<bar>q\<bar> \<le> 1" by simp
  then have aq: "\<bar>a - q\<bar> \<le> 1 / 2 ^ 53" unfolding a_def by (rule to_double_near)
  with q have "\<bar>a * 100\<bar> \<le> 200" by (simp add: abs_if split: if_splits)
  then have xa: "\<bar>x - a * 100\<bar> \<le> 200 / 2 ^ 53" unfolding x_def by (rule to_double_near)
  from aq xa have xq: "\<bar>x - q * 100\<bar> \<le> 300 / 2 ^ 53" by (simp add: abs_if split: if_splits)
  with q have "\<bar>x\<bar> \<le> 101" by (simp add: abs_if split: if_splits)
  then have "\<bar>py_round2 x - x\<bar> \<le> 1 / 200 + 102 / 2 ^ 53" by (rule py_round2_near)
  with xq have "\<bar>py_round2 x - q * 100\<bar> \<le> 3 / 500" by (simp add: abs_if split: if_splits)
  then show ?thesis by (simp only: x_def a_def q_def)
qed

subsection \<open>The aggregation\<close>

lemma stored_size_add_edge:
  "stored_size (add_edge ls e) n =
     stored_size ls n + (if node_name e = n then edge_size e else 0)"
  by (simp add: stored_size_def add_edge_def Let_def update_conv default_entry_def
      split: option.splits)

lemma keys_add_edge: "fst ` set (add_edge ls e) = insert (node_name e) (fst ` set ls)"
  by (simp add: add_edge_def Let_def dom_update)

lemma distinct_add_edge: "distinct (map fst ls) \<Longrightarrow> distinct (map fst (add_edge ls e))"
  by (simp add: add_edge_def Let_def distinct_update)

lemma sum_sizes_update:
  "sum_list (map (\<lambda>(n, v). entry_size v) (AList.update k w ls)) =
     sum_list (map (\<lambda>(n, v). entry_size v) ls) - stored_size ls k + entry_size w"
  by (induction ls) (auto simp: stored_size_def)

lemma sum_sizes_add_edge:
  "sum_list (map (\<lambda>(n, v). entry_size v) (add_edge ls e)) =
     sum_list (map (\<lambda>(n, v). entry_size v) ls) + edge_size e"
  by (simp add: add_edge_def Let_def sum_sizes_update stored_size_def default_entry_def
      split: option.splits)

lemma foldl_add_edge:
  "stored_size (foldl add_edge ls es) n =
     stored_size ls n + sum_list (map edge_size (filter (\<lambda>e. node_name e = n) es)) \<and>
   fst ` set (foldl add_edge ls es) = fst ` set ls \<union> node_name ` set es \<and>
   (distinct (map fst ls) \<longrightarrow> distinct (map fst (foldl add_edge ls es))) \<and>
   sum_list (map (\<lambda>(n, v). entry_size v) (foldl add_edge ls es)) =
     sum_list (map (\<lambda>(n, v). entry_size v) ls) + sum_list (map edge_size es)"
proof (induction es arbitrary: ls)
  case Nil
  show ?case by simp
next
  case (Cons e es)
  show ?case
    using Cons.IH [of "add_edge ls e"]
    by (auto simp: stored_size_add_edge keys_add_edge distinct_add_edge sum_sizes_add_edge)
qed

lemma foldl_repos:
  "stored_size (foldl (\<lambda>ls r. foldl add_edge ls (edges r)) ls repos) n =
     stored_size ls n + lang_bytes repos n \<and>
   fst ` set (foldl (\<lambda>ls r. foldl add_edge ls (edges r)) ls repos) =
     fst ` set ls \<union> node_name ` set (all_edges repos) \<and>
   (distinct (map fst ls) \<longrightarrow>
      distinct (map fst (foldl (\<lambda>ls r. foldl add_edge ls (edges r)) ls repos))) \<and>
   sum_list (map (\<lambda>(n, v). entry_size v) (foldl (\<lambda>ls r. foldl add_edge ls (edges r)) ls repos)) =
     sum_list (map (\<lambda>(n, v). entry_size v) ls) + total_bytes repos"
proof (induction repos arbitrary: ls)
  case Nil
  show ?case by (simp add: lang_bytes_def total_bytes_def all_edges_def)
next
  case (Cons r repos)
  have split: "lang_bytes (r # repos) n =
      sum_list (map edge_size (filter (\<lambda>e. node_name e = n) (edges r))) + lang_bytes repos n"
    "total_bytes (r # repos) = sum_list (map edge_size (edges r)) + total_bytes repos"
    "all_edges (r # repos) = edges r @ all_edges repos"
    by (simp_all add: lang_bytes_def total_bytes_def all_edges_def)
  show ?case
    using Cons.IH [of "foldl add_edge ls (edges r)"] foldl_add_edge [of ls "edges r" n]
    unfolding split by (auto simp: image_Un)
qed

lemma collect_lang_sizes_sound:
  "stored_size (collect_lang_sizes repos) n = lang_bytes repos n"
  "fst ` set (collect_lang_sizes repos) = node_name ` set (all_edges repos)"
  "distinct (map fst (collect_lang_sizes repos))"
  "sum_list (map (\<lambda>(n, v). entry_size v) (collect_lang_sizes repos)) = total_bytes repos"
  using foldl_repos [of "[]" repos n] by (simp_all add: collect_lang_sizes_def stored_size_def)


subsection \<open>Percentages\<close>

lemma total_size_snd:
  "sum_list (map (\<lambda>p. entry_size (snd p)) (collect_lang_sizes repos)) = total_bytes repos"
  using collect_lang_sizes_sound(4) [of repos] by (simp add: case_prod_unfold)

lemma language_rows_map:
  "language_rows t items =
     map (\<lambda>p. \<lparr>name = fst p, percentage = reported_percentage (entry_size (snd p)) t,
                color = entry_color (snd p)\<rparr>) items"
  by (induction t items rule: language_rows.induct) (simp_all add: reported_percentage_def)

text \<open>The rows of the result, before any property of the aggregation is used.\<close>

lemma calculate_language_stats_rows:
  "calculate_language_stats repos =
     map (\<lambda>p. \<lparr>name = fst p,
                percentage = reported_percentage (entry_size (snd p)) (total_bytes repos),
                color = entry_color (snd p)\<rparr>)
         (sort_key (\<lambda>(n, v). - entry_size v) (collect_lang_sizes repos))"
  unfolding calculate_language_stats_def Let_def collect_lang_sizes_sound(4)
  by (rule language_rows_map)

lemma sum_list_sort_key_rat:
  fixes f :: "'a \<Rightarrow> rat"
  shows "sum_list (map f (sort_key k xs)) = sum_list (map f xs)"
proof -
  have "mset (map f (sort_key k xs)) = mset (map f xs)" by simp
  then show ?thesis by (metis sum_mset_sum_list)
qed

lemma percentages_sum:
  "sum_list (map percentage (calculate_language_stats repos)) =
     sum_list (map (\<lambda>p. reported_percentage (entry_size (snd p)) (total_bytes repos))
         (collect_lang_sizes repos))"
proof -
  have "sum_list (map percentage (calculate_language_stats repos)) =
     sum_list (map (\<lambda>p. reported_percentage (entry_size (snd p)) (total_bytes repos))
         (sort_key (\<lambda>(n, v). - entry_size v) (collect_lang_sizes repos)))"
    by (simp add: calculate_language_stats_rows comp_def)
  then show ?thesis by (simp only: sum_list_sort_key_rat)
qed

lemma row_size:
  assumes "(n, v) \<in> set (collect_lang_sizes repos)"
  shows "entry_size v = lang_bytes repos n"
proof -
  have "map_of (collect_lang_sizes repos) n = Some v"
    using assms collect_lang_sizes_sound(3) by simp
  then have "stored_size (collect_lang_sizes repos) n = entry_size v"
    by (simp add: stored_size_def)
  then show ?thesis by (simp add: collect_lang_sizes_sound(1))
qed

lemma sum_list_filter_le:
  assumes "\<forall>x\<in>set xs. (0 :: int) \<le> f x"
  shows "0 \<le> sum_list (map f (filter P xs)) \<and> sum_list (map f (filter P xs)) \<le> sum_list (map f xs)"
  using assms by (induction xs) auto

lemma lang_bytes_bounds:
  assumes "\<forall>e\<in>set (all_edges repos). 0 \<le> edge_size e"
  shows "0 \<le> lang_bytes repos n" "lang_bytes repos n \<le> total_bytes repos"
  using sum_list_filter_le [OF assms, of "\<lambda>e. node_name e = n"]
  by (simp_all add: lang_bytes_def total_bytes_def)

lemma sum_list_near:
  fixes f g :: "'a \<Rightarrow> rat"
  assumes "\<forall>x\<in>set xs. \<bar>g x - f x\<bar> \<le> c"
  shows "\<bar>sum_list (map g xs) - sum_list (map f xs)\<bar> \<le> of_nat (length xs) * c"
  using assms
proof (induction xs)
  case Nil
  show ?case by simp
next
  case (Cons x xs)
  then have "\<bar>g x - f x\<bar> \<le> c"
    "\<bar>sum_list (map g xs) - sum_list (map f xs)\<bar> \<le> of_nat (length xs) * c" by simp_all
  then show ?case by (simp add: algebra_simps abs_if split: if_splits)
qed

lemma sum_exact_percentages:
  "sum_list (map (\<lambda>p. rat_of_int (entry_size (snd p)) / t * 100) ls) =
     rat_of_int (sum_list (map (\<lambda>p. entry_size (snd p)) ls)) / t * 100"
  by (induction ls) (auto simp: add_divide_distrib distrib_right)

lemma exact_percentages_sum:
  assumes "0 < total_bytes repos"
  shows "sum_list (map (\<lambda>p. rat_of_int (entry_size (snd p)) / of_int (total_bytes repos) * 100)
           (collect_lang_sizes repos)) = 100"
  using assms sum_exact_percentages [of "of_int (total_bytes repos)" "collect_lang_sizes repos"]
  by (simp add: total_size_snd)

lemma reported_percentage_near:
  assumes "0 \<le> s" "s \<le> t" "0 < t"
  shows "\<bar>reported_percentage s t - of_int s / of_int t * 100\<bar> \<le> 3 / 500"
  using percentage_near_quotient [OF assms] assms(3) by (simp add: reported_percentage_def)

lemma reported_percentage_zero: "t \<le> 0 \<Longrightarrow> reported_percentage s t = 0"
  by (simp add: reported_percentage_def py_round2_zero)


lemma length_stats: "length (calculate_language_stats repos) = length (collect_lang_sizes repos)"
  by (simp add: calculate_language_stats_rows)

lemma percentages_sum_zero:
  assumes "total_bytes repos \<le> 0"
  shows "sum_list (map percentage (calculate_language_stats repos)) = 0"
  using assms by (simp add: percentages_sum reported_percentage_zero)

lemma percentages_sum_near:
  assumes nonneg: "\<forall>e\<in>set (all_edges repos). 0 \<le> edge_size e" and pos: "0 < total_bytes repos"
  shows "\<bar>sum_list (map percentage (calculate_language_stats repos)) - 100\<bar> \<le>
         of_nat (length (calculate_language_stats repos)) * (3 / 500)"
proof -
  let ?ls = "collect_lang_sizes repos"
  let ?t = "total_bytes repos"
  have "\<bar>reported_percentage (entry_size (snd p)) ?t -
          rat_of_int (entry_size (snd p)) / of_int ?t * 100\<bar> \<le> 3 / 500"
    if "p \<in> set ?ls" for p
  proof -
    from that have "entry_size (snd p) = lang_bytes repos (fst p)"
      using row_size [of "fst p" "snd p" repos] by simp
    with lang_bytes_bounds [OF nonneg, of "fst p"]
    have "0 \<le> entry_size (snd p)" "entry_size (snd p) \<le> ?t" by simp_all
    then show ?thesis using pos by (rule reported_percentage_near)
  qed
  then have "\<bar>sum_list (map (\<lambda>p. reported_percentage (entry_size (snd p)) ?t) ?ls) -
      sum_list (map (\<lambda>p. rat_of_int (entry_size (snd p)) / of_int ?t * 100) ?ls)\<bar>
      \<le> of_nat (length ?ls) * (3 / 500)"
    by (intro sum_list_near) simp
  then show ?thesis
    by (simp only: percentages_sum exact_percentages_sum [OF pos] length_stats)
qed

text \<open>
  Claim C5, as the code has it. Each percentage is rounded to two decimals, so it can lie
  above the exact share. For non-negative byte sizes each reported percentage is within
  0.006 of the exact share (0.005 from rounding to two decimals, the rest from the double
  arithmetic), so the percentages of \<open>n\<close> languages sum to at most
  100 + 0.006 \<times> \<open>n\<close> and, when the total size is positive, to at least
  100 - 0.006 \<times> \<open>n\<close>. Without a positive total they sum to 0.
\<close>

theorem percentages_sum_bound:
  "((\<forall>e\<in>set (all_edges repos). 0 \<le> edge_size e) \<longrightarrow>
      sum_list (map percentage (calculate_language_stats repos)) \<le>
        100 + of_nat (length (calculate_language_stats repos)) * (3 / 500) \<and>
      (0 < total_bytes repos \<longrightarrow>
        100 - of_nat (length (calculate_language_stats repos)) * (3 / 500) \<le>
          sum_list (map percentage (calculate_language_stats repos)))) \<and>
   (total_bytes repos \<le> 0 \<longrightarrow> sum_list (map percentage (calculate_language_stats repos)) = 0)"
proof (intro conjI impI)
  assume nonneg: "\<forall>e\<in>set (all_edges repos). 0 \<le> edge_size e"
  show "sum_list (map percentage (calculate_language_stats repos)) \<le>
        100 + of_nat (length (calculate_language_stats repos)) * (3 / 500)"
  proof (cases "0 < total_bytes repos")
    case True
    from percentages_sum_near [OF nonneg True] show ?thesis by (simp add: abs_if split: if_splits)
  next
    case False
    then have "sum_list (map percentage (calculate_language_stats repos)) = 0"
      by (intro percentages_sum_zero) simp
    then show ?thesis by simp
  qed
  assume "0 < total_bytes repos"
  from percentages_sum_near [OF nonneg this]
  show "100 - of_nat (length (calculate_language_stats repos)) * (3 / 500) \<le>
        sum_list (map percentage (calculate_language_stats repos))"
    by (simp add: abs_if split: if_splits)
next
  assume "total_bytes repos \<le> 0"
  then show "sum_list (map percentage (calculate_language_stats repos)) = 0"
    by (rule percentages_sum_zero)
qed

theorem percentages_sum_bound_witness:
  "sum_list (map percentage (calculate_language_stats
     [\<lparr>stargazerCount = 0, forkCount = 0, edges =
         [\<lparr>edge_size = 1, node_name = ''A'', node_color = None\<rparr>,
          \<lparr>edge_size = 2, node_name = ''B'', node_color = None\<rparr>]\<rparr>])) \<le> 100 + 2 * (3 / 500) \<and>
   100 - 2 * (3 / 500) \<le> sum_list (map percentage (calculate_language_stats
     [\<lparr>stargazerCount = 0, forkCount = 0, edges =
         [\<lparr>edge_size = 1, node_name = ''A'', node_color = None\<rparr>,
          \<lparr>edge_size = 2, node_name = ''B'', node_color = None\<rparr>]\<rparr>])) \<and>
   sum_list (map percentage (calculate_language_stats [])) = 0"
proof -
  let ?r = "[\<lparr>stargazerCount = 0, forkCount = 0, edges =
         [\<lparr>edge_size = 1, node_name = ''A'', node_color = None\<rparr>,
          \<lparr>edge_size = 2, node_name = ''B'', node_color = None\<rparr>]\<rparr>]"
  have len: "length (calculate_language_stats ?r) = 2"
    by (simp add: length_stats collect_lang_sizes_def add_edge_def)
  have t: "0 < total_bytes ?r" "total_bytes [] \<le> 0"
    "\<forall>e\<in>set (all_edges ?r). 0 \<le> edge_size e"
    by (simp_all add: total_bytes_def all_edges_def)
  from percentages_sum_bound [of ?r] percentages_sum_bound [of "[]"] len t
  show ?thesis by simp
qed

text \<open>
  Six languages of equal size get 16.67 each (the double nearest to it), which sums to
  more than 100.
\<close>

theorem six_languages_exceed_100:
  "map percentage (calculate_language_stats
     [\<lparr>stargazerCount = 0, forkCount = 0, edges =
         [\<lparr>edge_size = 1, node_name = ''A'', node_color = None\<rparr>,
          \<lparr>edge_size = 1, node_name = ''B'', node_color = None\<rparr>,
          \<lparr>edge_size = 1, node_name = ''C'', node_color = None\<rparr>,
          \<lparr>edge_size = 1, node_name = ''D'', node_color = None\<rparr>,
          \<lparr>edge_size = 1, node_name = ''E'', node_color = None\<rparr>,
          \<lparr>edge_size = 1, node_name = ''F'', node_color = None\<rparr>]\<rparr>]) =
     [to_double (1667 / 100), to_double (1667 / 100), to_double (1667 / 100),
      to_double (1667 / 100), to_double (1667 / 100), to_double (1667 / 100)] \<and>
   \<not> sum_list (map percentage (calculate_language_stats
     [\<lparr>stargazerCount = 0, forkCount = 0, edges =
         [\<lparr>edge_size = 1, node_name = ''A'', node_color = None\<rparr>,
          \<lparr>edge_size = 1, node_name = ''B'', node_color = None\<rparr>,
          \<lparr>edge_size = 1, node_name = ''C'', node_color = None\<rparr>,
          \<lparr>edge_size = 1, node_name = ''D'', node_color = None\<rparr>,
          \<lparr>edge_size = 1, node_name = ''E'', node_color = None\<rparr>,
          \<lparr>edge_size = 1, node_name = ''F'', node_color = None\<rparr>]\<rparr>])) \<le> 100"
  by code_simp


lemma names_of_stats:
  "map name (calculate_language_stats repos) =
     map fst (sort_key (\<lambda>(n, v). - entry_size v) (collect_lang_sizes repos))"
  by (simp add: calculate_language_stats_rows comp_def)

lemma example_sizes:
  "map (\<lambda>(n, v). (n, entry_size v)) (collect_lang_sizes
     [\<lparr>stargazerCount = 0, forkCount = 0, edges =
         [\<lparr>edge_size = 300, node_name = ''A'', node_color = None\<rparr>,
          \<lparr>edge_size = 100, node_name = ''B'', node_color = None\<rparr>]\<rparr>,
      \<lparr>stargazerCount = 0, forkCount = 0, edges =
         [\<lparr>edge_size = 100, node_name = ''B'', node_color = None\<rparr>]\<rparr>]) =
     [(''A'', 300), (''B'', 200)]"
  by code_simp

lemma example_stats:
  "calculate_language_stats
     [\<lparr>stargazerCount = 0, forkCount = 0, edges =
         [\<lparr>edge_size = 300, node_name = ''A'', node_color = None\<rparr>,
          \<lparr>edge_size = 100, node_name = ''B'', node_color = None\<rparr>]\<rparr>,
      \<lparr>stargazerCount = 0, forkCount = 0, edges =
         [\<lparr>edge_size = 100, node_name = ''B'', node_color = None\<rparr>]\<rparr>] =
   [\<lparr>name = ''A'', percentage = 60, color = ''#858585''\<rparr>,
    \<lparr>name = ''B'', percentage = 40, color = ''#858585''\<rparr>]"
  by code_simp

text \<open>
  Two inputs where the double arithmetic decides the last digit: 23 of 160 is 14.375
  exactly and 14.374999999999998 in doubles, so 14.37 is reported; 93 of 160 is 58.125
  exactly and above it in doubles, so 58.13 is reported.
\<close>

lemma double_arithmetic_decides:
  "map percentage (calculate_language_stats
     [\<lparr>stargazerCount = 0, forkCount = 0, edges =
         [\<lparr>edge_size = 23, node_name = ''A'', node_color = None\<rparr>,
          \<lparr>edge_size = 137, node_name = ''B'', node_color = None\<rparr>]\<rparr>]) =
     [to_double (8562 / 100), to_double (1437 / 100)] \<and>
   map percentage (calculate_language_stats
     [\<lparr>stargazerCount = 0, forkCount = 0, edges =
         [\<lparr>edge_size = 67, node_name = ''A'', node_color = None\<rparr>,
          \<lparr>edge_size = 93, node_name = ''B'', node_color = None\<rparr>]\<rparr>]) =
     [to_double (5813 / 100), to_double (4188 / 100)]"
  by code_simp

text \<open>
  Claim C6, as the code has it. The result has one row per language name among the edges
  of all repositories. The percentage of a row is computed from the bytes of that
  language over all repositories and the bytes of all languages: their quotient times 100
  in double arithmetic, rounded by \<^verbatim>\<open>round(pct, 2)\<close>. For non-negative byte sizes and a
  positive total it is within 0.006 of the exact 100 \<times> size / total. It is 0 when the
  total is not positive (no division takes place). For A:300 and B:100 in one repository
  and B:100 in a second one, B is stored with 200 and the rows are A with 60 and B with
  40.
\<close>

theorem language_percentages_rounded:
  "distinct (map name (calculate_language_stats repos)) \<and>
   set (map name (calculate_language_stats repos)) = node_name ` set (all_edges repos) \<and>
   (\<forall>l\<in>set (calculate_language_stats repos).
      percentage l = reported_percentage (lang_bytes repos (name l)) (total_bytes repos)) \<and>
   ((\<forall>e\<in>set (all_edges repos). 0 \<le> edge_size e) \<and> 0 < total_bytes repos \<longrightarrow>
      (\<forall>l\<in>set (calculate_language_stats repos).
         \<bar>percentage l -
           of_int (lang_bytes repos (name l)) / of_int (total_bytes repos) * 100\<bar> \<le> 3 / 500)) \<and>
   (total_bytes repos \<le> 0 \<longrightarrow> (\<forall>l\<in>set (calculate_language_stats repos). percentage l = 0)) \<and>
   map (\<lambda>(n, v). (n, entry_size v)) (collect_lang_sizes
     [\<lparr>stargazerCount = 0, forkCount = 0, edges =
         [\<lparr>edge_size = 300, node_name = ''A'', node_color = None\<rparr>,
          \<lparr>edge_size = 100, node_name = ''B'', node_color = None\<rparr>]\<rparr>,
      \<lparr>stargazerCount = 0, forkCount = 0, edges =
         [\<lparr>edge_size = 100, node_name = ''B'', node_color = None\<rparr>]\<rparr>]) =
     [(''A'', 300), (''B'', 200)] \<and>
   calculate_language_stats
     [\<lparr>stargazerCount = 0, forkCount = 0, edges =
         [\<lparr>edge_size = 300, node_name = ''A'', node_color = None\<rparr>,
          \<lparr>edge_size = 100, node_name = ''B'', node_color = None\<rparr>]\<rparr>,
      \<lparr>stargazerCount = 0, forkCount = 0, edges =
         [\<lparr>edge_size = 100, node_name = ''B'', node_color = None\<rparr>]\<rparr>] =
   [\<lparr>name = ''A'', percentage = 60, color = ''#858585''\<rparr>,
    \<lparr>name = ''B'', percentage = 40, color = ''#858585''\<rparr>]"
proof -
  let ?ls = "collect_lang_sizes repos"
  have mset_names: "mset (map name (calculate_language_stats repos)) = mset (map fst ?ls)"
    by (simp add: names_of_stats)
  have "distinct (map name (calculate_language_stats repos)) = distinct (map fst ?ls)"
    using mset_names by (rule mset_eq_imp_distinct_iff)
  then have d: "distinct (map name (calculate_language_stats repos))"
    by (simp add: collect_lang_sizes_sound(3))
  have "set (map name (calculate_language_stats repos)) = set (map fst ?ls)"
    using mset_names by (rule mset_eq_setD)
  then have n: "set (map name (calculate_language_stats repos)) = node_name ` set (all_edges repos)"
    by (simp add: collect_lang_sizes_sound(2))
  have p: "percentage l = reported_percentage (lang_bytes repos (name l)) (total_bytes repos)"
    if "l \<in> set (calculate_language_stats repos)" for l
  proof -
    from that obtain q where q: "q \<in> set ?ls"
      and l: "l = \<lparr>name = fst q,
            percentage = reported_percentage (entry_size (snd q)) (total_bytes repos),
            color = entry_color (snd q)\<rparr>"
      by (auto simp: calculate_language_stats_rows)
    from q have "entry_size (snd q) = lang_bytes repos (fst q)"
      using row_size [of "fst q" "snd q" repos] by simp
    with l show ?thesis by simp
  qed
  have e: "\<bar>percentage l -
           of_int (lang_bytes repos (name l)) / of_int (total_bytes repos) * 100\<bar> \<le> 3 / 500"
    if "l \<in> set (calculate_language_stats repos)"
      "\<forall>e\<in>set (all_edges repos). 0 \<le> edge_size e" "0 < total_bytes repos" for l
    unfolding p [OF that(1)]
    using lang_bytes_bounds [OF that(2), of "name l"] that(3)
    by (intro reported_percentage_near)
  have z: "percentage l = 0"
    if "l \<in> set (calculate_language_stats repos)" "total_bytes repos \<le> 0" for l
    using p [OF that(1)] that(2) by (simp add: reported_percentage_zero)
  from d n p e z example_sizes example_stats show ?thesis by blast
qed

theorem language_percentages_rounded_witness:
  "map (\<lambda>l. (name l, percentage l)) (calculate_language_stats
     [\<lparr>stargazerCount = 0, forkCount = 0, edges =
         [\<lparr>edge_size = 1, node_name = ''A'', node_color = None\<rparr>,
          \<lparr>edge_size = 3, node_name = ''B'', node_color = None\<rparr>]\<rparr>]) =
     [(''B'', reported_percentage 3 4), (''A'', reported_percentage 1 4)] \<and>
   list_all (\<lambda>l. \<bar>percentage l - of_int (lang_bytes
     [\<lparr>stargazerCount = 0, forkCount = 0, edges =
         [\<lparr>edge_size = 1, node_name = ''A'', node_color = None\<rparr>,
          \<lparr>edge_size = 3, node_name = ''B'', node_color = None\<rparr>]\<rparr>] (name l)) / 4 * 100\<bar> \<le> 3 / 500)
     (calculate_language_stats
     [\<lparr>stargazerCount = 0, forkCount = 0, edges =
         [\<lparr>edge_size = 1, node_name = ''A'', node_color = None\<rparr>,
          \<lparr>edge_size = 3, node_name = ''B'', node_color = None\<rparr>]\<rparr>]) \<and>
   map percentage (calculate_language_stats
     [\<lparr>stargazerCount = 0, forkCount = 0, edges =
         [\<lparr>edge_size = 0, node_name = ''A'', node_color = None\<rparr>]\<rparr>]) = [0]"
proof -
  let ?r1 = "[\<lparr>stargazerCount = 0, forkCount = 0, edges =
         [\<lparr>edge_size = 1, node_name = ''A'', node_color = None\<rparr>,
          \<lparr>edge_size = 3, node_name = ''B'', node_color = None\<rparr>]\<rparr>]"
  let ?r0 = "[\<lparr>stargazerCount = 0, forkCount = 0, edges =
         [\<lparr>edge_size = 0, node_name = ''A'', node_color = None\<rparr>]\<rparr>]"
  have names1: "map name (calculate_language_stats ?r1) = [''B'', ''A'']" by code_simp
  have names0: "map name (calculate_language_stats ?r0) = [''A'']" by code_simp
  have t1: "total_bytes ?r1 = 4" "lang_bytes ?r1 ''A'' = 1" "lang_bytes ?r1 ''B'' = 3"
    by (simp_all add: total_bytes_def lang_bytes_def all_edges_def)
  have h1: "(\<forall>e\<in>set (all_edges ?r1). 0 \<le> edge_size e) \<and> 0 < total_bytes ?r1"
    by (simp add: total_bytes_def all_edges_def)
  have t0: "total_bytes ?r0 \<le> 0" by (simp add: total_bytes_def all_edges_def)
  note rows1 = language_percentages_rounded [of ?r1]
  note rows0 = language_percentages_rounded [of ?r0]
  from names1 obtain a b where ab: "calculate_language_stats ?r1 = [b, a]"
    "name b = ''B''" "name a = ''A''" by auto
  from names0 obtain c where c: "calculate_language_stats ?r0 = [c]" by auto
  have "\<forall>l\<in>set (calculate_language_stats ?r1).
      percentage l = reported_percentage (lang_bytes ?r1 (name l)) (total_bytes ?r1)"
    by (rule rows1 [THEN conjunct2, THEN conjunct2, THEN conjunct1])
  then have first: "percentage b = reported_percentage 3 4"
    "percentage a = reported_percentage 1 4"
    using ab t1 by simp_all
  have "\<forall>l\<in>set (calculate_language_stats ?r1).
      \<bar>percentage l - of_int (lang_bytes ?r1 (name l)) / of_int (total_bytes ?r1) * 100\<bar>
        \<le> 3 / 500"
    by (rule rows1 [THEN conjunct2, THEN conjunct2, THEN conjunct2, THEN conjunct1,
          THEN mp, OF h1])
  then have second: "list_all (\<lambda>l. \<bar>percentage l - of_int (lang_bytes ?r1 (name l)) / 4 * 100\<bar>
      \<le> 3 / 500) (calculate_language_stats ?r1)"
    unfolding t1(1) list_all_iff by simp
  have "\<forall>l\<in>set (calculate_language_stats ?r0). percentage l = 0"
    by (rule rows0 [THEN conjunct2, THEN conjunct2, THEN conjunct2, THEN conjunct2,
          THEN conjunct1, THEN mp, OF t0])
  then have third: "percentage c = 0" using c by simp
  from first ab have "map (\<lambda>l. (name l, percentage l)) (calculate_language_stats ?r1) =
     [(''B'', reported_percentage 3 4), (''A'', reported_percentage 1 4)]" by simp
  moreover from third c have "map percentage (calculate_language_stats ?r0) = [0]" by simp
  ultimately show ?thesis using second by (intro conjI)
qed

text \<open>
  With A:1 and B:2 the reported percentages are the doubles nearest to 66.67 and 33.33,
  not the quotients 200/3 and 100/3.
\<close>

theorem percentage_not_exact_quotient:
  "map (\<lambda>l. (name l, percentage l)) (calculate_language_stats
     [\<lparr>stargazerCount = 0, forkCount = 0, edges =
         [\<lparr>edge_size = 1, node_name = ''A'', node_color = None\<rparr>,
          \<lparr>edge_size = 2, node_name = ''B'', node_color = None\<rparr>]\<rparr>]) =
     [(''B'', to_double (6667 / 100)), (''A'', to_double (3333 / 100))] \<and>
   to_double (3333 / 100) \<noteq> 100 * 1 / 3 \<and> to_double (6667 / 100) \<noteq> 100 * 2 / 3"
  by code_simp

section \<open>Properties of the cards\<close>

lemma stats_themes_unknown:
  "theme \<notin> {''merko'', ''dark'', ''default''} \<Longrightarrow> dict_get stats_themes theme d = d"
  by (simp add: dict_get_def stats_themes_def)

lemma stats_themes_merko:
  "map_of stats_themes ''merko'' =
     Some [(''bg'', ''#0a0f0b''), (''border'', ''#69ff97''), (''title'', ''#69ff97''),
           (''text'', ''#c9d1d9''), (''icon'', ''#69ff97'')]"
  "dict_get stats_themes ''merko'' d =
     [(''bg'', ''#0a0f0b''), (''border'', ''#69ff97''), (''title'', ''#69ff97''),
      (''text'', ''#c9d1d9''), (''icon'', ''#69ff97'')]"
  by (simp_all add: dict_get_def stats_themes_def)

lemma stats_card_fallback:
  assumes "theme \<notin> {''merko'', ''dark'', ''default''}"
  shows "generate_stats_svg stats username theme = generate_stats_svg stats username ''merko''"
  by (simp only: generate_stats_svg_def stats_themes_merko stats_themes_unknown [OF assms]
      Option.bind.simps)

lemma stats_card_returns: "generate_stats_svg stats username ''merko'' \<noteq> None"
  by (simp add: generate_stats_svg_def stats_themes_merko Let_def)

lemma top_langs_themes_unknown:
  "theme \<notin> {''merko'', ''dark'', ''default''} \<Longrightarrow> dict_get top_langs_themes theme d = d"
  by (simp add: dict_get_def top_langs_themes_def)

lemma top_langs_themes_merko:
  "map_of top_langs_themes ''merko'' =
     Some [(''bg'', ''#0a0f0b''), (''border'', ''#69ff97''), (''title'', ''#69ff97''),
           (''text'', ''#c9d1d9'')]"
  "dict_get top_langs_themes ''merko'' d =
     [(''bg'', ''#0a0f0b''), (''border'', ''#69ff97''), (''title'', ''#69ff97''),
      (''text'', ''#c9d1d9'')]"
  by (simp_all add: dict_get_def top_langs_themes_def)

lemma top_langs_card_fallback:
  assumes "theme \<notin> {''merko'', ''dark'', ''default''}"
  shows "generate_top_langs_svg fmt languages theme layout =
         generate_top_langs_svg fmt languages ''merko'' layout"
  by (simp only: generate_top_langs_svg_def top_langs_themes_merko
      top_langs_themes_unknown [OF assms] Option.bind.simps)

lemma top_langs_card_returns: "generate_top_langs_svg fmt languages ''merko'' layout \<noteq> None"
  by (simp add: generate_top_langs_svg_def top_langs_themes_merko Let_def)

lemma streak_themes_unknown:
  "theme \<notin> {''tokyonight'', ''dark'', ''default''} \<Longrightarrow> dict_get streak_themes theme d = d"
  by (simp add: dict_get_def streak_themes_def)

lemma streak_themes_tokyonight:
  "map_of streak_themes ''tokyonight'' =
     Some [(''bg'', ''#1a1b27''), (''border'', ''#70a5fd''), (''title'', ''#70a5fd''),
           (''text'', ''#38bdae''), (''dates'', ''#bf91f3''), (''ring'', ''#70a5fd''),
           (''fire'', ''#eb6e17'')]"
  "dict_get streak_themes ''tokyonight'' d =
     [(''bg'', ''#1a1b27''), (''border'', ''#70a5fd''), (''title'', ''#70a5fd''),
      (''text'', ''#38bdae''), (''dates'', ''#bf91f3''), (''ring'', ''#70a5fd''),
      (''fire'', ''#eb6e17'')]"
  by (simp_all add: dict_get_def streak_themes_def)

lemma streak_card_fallback:
  assumes "theme \<notin> {''tokyonight'', ''dark'', ''default''}"
  shows "generate_streak_svg strftime streaks username theme =
         generate_streak_svg strftime streaks username ''tokyonight''"
  by (simp only: generate_streak_svg_def streak_themes_tokyonight
      streak_themes_unknown [OF assms] Option.bind.simps)

lemma streak_card_returns:
  "generate_streak_svg strftime streaks username ''tokyonight'' \<noteq> None"
  by (simp add: generate_streak_svg_def streak_themes_tokyonight Let_def)

text \<open>
  Claim C10. A theme name that is not a key of a card's \<^verbatim>\<open>themes\<close> makes
  \<^verbatim>\<open>themes.get\<close> return the default palette: the stats card and the top languages card
  are then the cards of the theme \<^verbatim>\<open>merko\<close>, the streak card is the card of the theme
  \<^verbatim>\<open>tokyonight\<close>, and each call returns a document (no \<^verbatim>\<open>KeyError\<close> is raised).
\<close>

theorem unknown_theme_falls_back:
  "(theme \<notin> {''merko'', ''dark'', ''default''} \<longrightarrow>
      generate_stats_svg stats username theme = generate_stats_svg stats username ''merko'' \<and>
      generate_stats_svg stats username theme \<noteq> None \<and>
      generate_top_langs_svg fmt languages theme layout =
        generate_top_langs_svg fmt languages ''merko'' layout \<and>
      generate_top_langs_svg fmt languages theme layout \<noteq> None) \<and>
   (theme \<notin> {''tokyonight'', ''dark'', ''default''} \<longrightarrow>
      generate_streak_svg strftime streaks username theme =
        generate_streak_svg strftime streaks username ''tokyonight'' \<and>
      generate_streak_svg strftime streaks username theme \<noteq> None)"
proof (intro conjI impI)
  assume known: "theme \<notin> {''merko'', ''dark'', ''default''}"
  show stats: "generate_stats_svg stats username theme =
      generate_stats_svg stats username ''merko''"
    using known by (rule stats_card_fallback)
  show "generate_stats_svg stats username theme \<noteq> None"
    unfolding stats by (rule stats_card_returns)
  show langs: "generate_top_langs_svg fmt languages theme layout =
      generate_top_langs_svg fmt languages ''merko'' layout"
    using known by (rule top_langs_card_fallback)
  show "generate_top_langs_svg fmt languages theme layout \<noteq> None"
    unfolding langs by (rule top_langs_card_returns)
next
  assume known: "theme \<notin> {''tokyonight'', ''dark'', ''default''}"
  show streak: "generate_streak_svg strftime streaks username theme =
      generate_streak_svg strftime streaks username ''tokyonight''"
    using known by (rule streak_card_fallback)
  show "generate_streak_svg strftime streaks username theme \<noteq> None"
    unfolding streak by (rule streak_card_returns)
qed

theorem unknown_theme_falls_back_witness:
  "generate_stats_svg
     \<lparr>nodes = [], totalCommitContributions = 0, restrictedContributionsCount = 0,
      totalPullRequestContributions = 0, totalIssueContributions = 0,
      totalPullRequestReviewContributions = 0, totalContributions = 0,
      repositoriesContributedTo = 0\<rparr> ''octocat'' ''solarized'' =
   generate_stats_svg
     \<lparr>nodes = [], totalCommitContributions = 0, restrictedContributionsCount = 0,
      totalPullRequestContributions = 0, totalIssueContributions = 0,
      totalPullRequestReviewContributions = 0, totalContributions = 0,
      repositoriesContributedTo = 0\<rparr> ''octocat'' ''merko'' \<and>
   generate_top_langs_svg
     \<lparr>float_str = (\<lambda>x. []), float_neg_str = (\<lambda>x. []), float_1f = (\<lambda>x. [])\<rparr>
     [] ''solarized'' ''donut-vertical'' =
   generate_top_langs_svg
     \<lparr>float_str = (\<lambda>x. []), float_neg_str = (\<lambda>x. []), float_1f = (\<lambda>x. [])\<rparr>
     [] ''merko'' ''donut-vertical'' \<and>
   generate_streak_svg (\<lambda>d. []) (calculate_streaks [] 0) ''octocat'' ''solarized'' =
   generate_streak_svg (\<lambda>d. []) (calculate_streaks [] 0) ''octocat'' ''tokyonight''"
proof -
  have known: "''solarized'' \<notin> {''merko'', ''dark'', ''default''}"
    "''solarized'' \<notin> {''tokyonight'', ''dark'', ''default''}" by simp_all
  note cards = unknown_theme_falls_back [of "''solarized''"
      "\<lparr>nodes = [], totalCommitContributions = 0, restrictedContributionsCount = 0,
        totalPullRequestContributions = 0, totalIssueContributions = 0,
        totalPullRequestReviewContributions = 0, totalContributions = 0,
        repositoriesContributedTo = 0\<rparr>" "''octocat''"
      "\<lparr>float_str = (\<lambda>x. []), float_neg_str = (\<lambda>x. []), float_1f = (\<lambda>x. [])\<rparr>"
      "[]" "''donut-vertical''" "\<lambda>d. []" "calculate_streaks [] 0"]
  note merko = cards [THEN conjunct1, THEN mp, OF known(1)]
  note tokyonight = cards [THEN conjunct2, THEN mp, OF known(2)]
  show ?thesis
  proof (intro conjI)
    show "generate_stats_svg
       \<lparr>nodes = [], totalCommitContributions = 0, restrictedContributionsCount = 0,
        totalPullRequestContributions = 0, totalIssueContributions = 0,
        totalPullRequestReviewContributions = 0, totalContributions = 0,
        repositoriesContributedTo = 0\<rparr> ''octocat'' ''solarized'' =
      generate_stats_svg
       \<lparr>nodes = [], totalCommitContributions = 0, restrictedContributionsCount = 0,
        totalPullRequestContributions = 0, totalIssueContributions = 0,
        totalPullRequestReviewContributions = 0, totalContributions = 0,
        repositoriesContributedTo = 0\<rparr> ''octocat'' ''merko''"
      by (rule merko [THEN conjunct1])
    show "generate_top_langs_svg
       \<lparr>float_str = (\<lambda>x. []), float_neg_str = (\<lambda>x. []), float_1f = (\<lambda>x. [])\<rparr>
       [] ''solarized'' ''donut-vertical'' =
      generate_top_langs_svg
       \<lparr>float_str = (\<lambda>x. []), float_neg_str = (\<lambda>x. []), float_1f = (\<lambda>x. [])\<rparr>
       [] ''merko'' ''donut-vertical''"
      by (rule merko [THEN conjunct2, THEN conjunct2, THEN conjunct1])
    show "generate_streak_svg (\<lambda>d. []) (calculate_streaks [] 0) ''octocat'' ''solarized'' =
      generate_streak_svg (\<lambda>d. []) (calculate_streaks [] 0) ''octocat'' ''tokyonight''"
      by (rule tokyonight [THEN conjunct1])
  qed
qed

end
